theory Spec2Isabelle
  imports Main "HOL-Library.Word"
begin

section \<open>Values of the program\<close>

text \<open>
  Go strings are byte sequences, and so is \<^typ>\<open>string\<close>: a non-ASCII literal of the
  source is written as its UTF-8 bytes. \<open>SheetId\<close> is an \<open>int64\<close> of the client
  library; the program only passes it on.
\<close>

type_synonym int64 = "64 word"

datatype error = Error (message: string)

text \<open>
  The two ways the process stops early: \<open>log.Fatal\<close>/\<open>log.Fatalf\<close> (the message is
  logged and the process exits with status 1) and a run-time panic.
\<close>

datatype panic = IndexOutOfRange | NilDereference

datatype abort = Fatal string | Panic panic

text \<open>
  The structures of \<open>google.golang.org/api/sheets/v4\<close> the program touches, with the
  fields it reads or writes. A pointer field that may be \<open>nil\<close> is an option.
\<close>

record SheetProperties =
  SheetId :: int64
  Title :: string

record Sheet =
  Properties :: "SheetProperties option"

record SpreadsheetProperties =
  Title_Spreadsheet :: string

record Spreadsheet =
  SpreadsheetId :: string
  Properties_Spreadsheet :: "SpreadsheetProperties option"
  Sheets :: "Sheet option list"

text \<open>
  A \<open>sheets.Request\<close> carries one of many kinds of update; the program builds two:
  \<open>UpdateSheetProperties\<close> (with its \<open>Properties\<close> and its field mask \<open>Fields\<close>)
  and \<open>DeleteSheet\<close> (with its \<open>SheetId\<close>).
\<close>

datatype Request =
    UpdateSheetProperties SheetProperties string
  | DeleteSheet int64

record ValueRange =
  Range :: string
  Values :: "int list list"
  MajorDimension :: string

record Time =
  Year :: int
  Month :: int

datatype Token = Token string

datatype Config = Config string

datatype HTTPClient = HTTPClient Config "Token option"

datatype File = File string

section \<open>The environment\<close>

text \<open>
  Every step that leaves the process is recorded, with what came back, in the order
  the program performs it. Standard output and \<open>defer f.Close()\<close> are not recorded, and
  the \<open>context.Context\<close> passed along (always the background context) is left out.
\<close>

datatype request =
    ReadFileCall string
  | ConfigFromJSONCall string string
  | OpenCall string
  | DecodeCall File
  | ScanCall
  | ExchangeCall Config string
  | OpenFileCall string
  | EncodeCall File Token
  | NewServiceCall HTTPClient
  | CreateCall Spreadsheet
  | GetCall string
  | CopyToCall string int64 string
  | BatchUpdateCall string "Request list"
  | ValuesUpdateCall string string ValueRange string
  | NowCall

datatype reply =
    Failed error
  | Done
  | GotBytes string
  | GotConfig Config
  | GotFile File
  | GotToken Token
  | GotText string
  | GotService
  | GotSpreadsheet Spreadsheet
  | GotSheet SheetProperties
  | GotTime Time

type_synonym event = "request \<times> reply"

record 'w state =
  world :: 'w
  trace :: "event list"

text \<open>
  The spreadsheet service behind \<open>*sheets.Service\<close>: each endpoint answers a request in
  the current state \<open>'w\<close> of the outside world with an error or a response, and leaves a
  new state. Nothing is assumed about how it answers.
\<close>

record 'w Service =
  Create :: "Spreadsheet \<Rightarrow> 'w \<Rightarrow> (error + Spreadsheet) \<times> 'w"
  Get :: "string \<Rightarrow> 'w \<Rightarrow> (error + Spreadsheet) \<times> 'w"
  CopyTo :: "string \<Rightarrow> int64 \<Rightarrow> string \<Rightarrow> 'w \<Rightarrow> (error + SheetProperties) \<times> 'w"
  BatchUpdate :: "string \<Rightarrow> Request list \<Rightarrow> 'w \<Rightarrow> (error + unit) \<times> 'w"
  ValuesUpdate :: "string \<Rightarrow> string \<Rightarrow> ValueRange \<Rightarrow> string \<Rightarrow> 'w \<Rightarrow> (error + unit) \<times> 'w"

text \<open>
  The operating system and the libraries: files, standard input, the OAuth2 exchange,
  the construction of the service, and the clock.
\<close>

record 'w Sys =
  ReadFile :: "string \<Rightarrow> 'w \<Rightarrow> (error + string) \<times> 'w"
  ConfigFromJSON :: "string \<Rightarrow> string \<Rightarrow> error + Config"
  Open :: "string \<Rightarrow> 'w \<Rightarrow> (error + File) \<times> 'w"
  Decode :: "File \<Rightarrow> 'w \<Rightarrow> (Token \<times> error option) \<times> 'w"
  Scan :: "'w \<Rightarrow> (error + string) \<times> 'w"
  Exchange :: "Config \<Rightarrow> string \<Rightarrow> 'w \<Rightarrow> (error + Token) \<times> 'w"
  OpenFile :: "string \<Rightarrow> 'w \<Rightarrow> (error + File) \<times> 'w"
  Encode :: "File \<Rightarrow> Token \<Rightarrow> 'w \<Rightarrow> error option \<times> 'w"
  NewService :: "HTTPClient \<Rightarrow> error + 'w Service"
  Now :: "'w \<Rightarrow> Time \<times> 'w"

section \<open>Sequencing, aborts and loops\<close>

type_synonym ('w, 'a) prog = "'w state \<Rightarrow> (abort + 'a) \<times> 'w state"

definition return :: "'a \<Rightarrow> ('w, 'a) prog" where
  "return x = (\<lambda>s. (Inr x, s))"

definition seq :: "('w, 'a) prog \<Rightarrow> ('a \<Rightarrow> ('w, 'b) prog) \<Rightarrow> ('w, 'b) prog" where
  "seq m f = (\<lambda>s. case m s of (Inl a, s') \<Rightarrow> (Inl a, s') | (Inr x, s') \<Rightarrow> f x s')"

definition fatal :: "string \<Rightarrow> ('w, 'a) prog" where
  "fatal msg = (\<lambda>s. (Inl (Fatal msg), s))"

definition fatalf :: "string \<Rightarrow> error \<Rightarrow> ('w, 'a) prog" where
  "fatalf prefix err = fatal (prefix @ message err)"

definition index :: "'a list \<Rightarrow> nat \<Rightarrow> ('w, 'a) prog" where
  "index xs i = (\<lambda>s. if i < length xs then (Inr (xs ! i), s) else (Inl (Panic IndexOutOfRange), s))"

definition deref :: "'a option \<Rightarrow> ('w, 'a) prog" where
  "deref p = (\<lambda>s. case p of None \<Rightarrow> (Inl (Panic NilDereference), s) | Some x \<Rightarrow> (Inr x, s))"

definition perform :: "request \<Rightarrow> ('a \<Rightarrow> reply) \<Rightarrow> ('w \<Rightarrow> 'a \<times> 'w) \<Rightarrow> ('w, 'a) prog" where
  "perform c conv f = (\<lambda>s. case f (world s) of (x, w') \<Rightarrow>
     (Inr x, \<lparr>world = w', trace = trace s @ [(c, conv x)]\<rparr>))"

definition call :: "request \<Rightarrow> ('a \<Rightarrow> reply) \<Rightarrow> ('w \<Rightarrow> (error + 'a) \<times> 'w) \<Rightarrow> ('w, error + 'a) prog" where
  "call c conv f = perform c (\<lambda>r. case r of Inl e \<Rightarrow> Failed e | Inr x \<Rightarrow> conv x) f"

definition pure :: "'a \<Rightarrow> 'w \<Rightarrow> 'a \<times> 'w" where
  "pure x = (\<lambda>w. (x, w))"

text \<open>\<open>for _, x := range xs { body }\<close>, for a body without \<open>break\<close>, \<open>continue\<close> or \<open>return\<close>.\<close>

fun forEach :: "'a list \<Rightarrow> ('a \<Rightarrow> ('w, unit) prog) \<Rightarrow> ('w, unit) prog" where
  "forEach [] body = return ()"
| "forEach (x # xs) body = seq (body x) (\<lambda>_. forEach xs body)"

section \<open>\<open>strings.TrimSuffix\<close>\<close>

definition HasSuffix :: "string \<Rightarrow> string \<Rightarrow> bool" where
  "HasSuffix s suffix \<longleftrightarrow>
     length s \<ge> length suffix \<and> drop (length s - length suffix) s = suffix"

definition TrimSuffix :: "string \<Rightarrow> string \<Rightarrow> string" where
  "TrimSuffix s suffix =
     (if HasSuffix s suffix then take (length s - length suffix) s else s)"

section \<open>Token acquisition (both files, lines 20 to 71)\<close>

definition tokenFromFile :: "'w Sys \<Rightarrow> string \<Rightarrow> ('w, Token option \<times> error option) prog" where
  "tokenFromFile sys file =
     seq (call (OpenCall file) GotFile (Open sys file)) (\<lambda>r. case r of
       Inl err \<Rightarrow> return (None, Some err)
     | Inr f \<Rightarrow>
         seq (perform (DecodeCall f)
                (\<lambda>(tok, err). case err of Some e \<Rightarrow> Failed e | None \<Rightarrow> GotToken tok)
                (Decode sys f))
           (\<lambda>(tok, err). return (Some tok, err)))"

definition getTokenFromWeb :: "'w Sys \<Rightarrow> Config \<Rightarrow> ('w, Token) prog" where
  "getTokenFromWeb sys config =
     seq (call ScanCall GotText (Scan sys)) (\<lambda>r. case r of
       Inl err \<Rightarrow> fatalf ''Unable to read authorization code: '' err
     | Inr authCode \<Rightarrow>
         seq (call (ExchangeCall config authCode) GotToken (Exchange sys config authCode))
           (\<lambda>r. case r of
             Inl err \<Rightarrow> fatalf ''Unable to retrieve token from web: '' err
           | Inr tok \<Rightarrow> return tok))"

definition saveToken :: "'w Sys \<Rightarrow> string \<Rightarrow> Token \<Rightarrow> ('w, unit) prog" where
  "saveToken sys path token =
     seq (call (OpenFileCall path) GotFile (OpenFile sys path)) (\<lambda>r. case r of
       Inl err \<Rightarrow> fatalf ''Unable to cache oauth token: '' err
     | Inr f \<Rightarrow>
         seq (perform (EncodeCall f token)
                (\<lambda>err. case err of Some e \<Rightarrow> Failed e | None \<Rightarrow> Done)
                (Encode sys f token))
           (\<lambda>_. return ()))"

definition getClient :: "'w Sys \<Rightarrow> Config \<Rightarrow> ('w, HTTPClient) prog" where
  "getClient sys config =
     (let tokFile = ''token.json'' in
      seq (tokenFromFile sys tokFile) (\<lambda>(tok, err).
        seq (if err \<noteq> None
             then seq (getTokenFromWeb sys config) (\<lambda>tok'.
                    seq (saveToken sys tokFile tok') (\<lambda>_. return (Some tok')))
             else return tok)
          (\<lambda>tok. return (HTTPClient config tok))))"

section \<open>The spreadsheet operations of \<open>quickstart.go\<close>\<close>

definition title_bytes :: string where
  "title_bytes =
     [CHR 0xE5, CHR 0x8B, CHR 0xA4, CHR 0xE5, CHR 0x8B, CHR 0x99, CHR 0xE8, CHR 0xA1,
      CHR 0xA8, CHR 0xE4, CHR 0xBD, CHR 0x9C, CHR 0xE6, CHR 0x88, CHR 0x90, CHR 0xE3,
      CHR 0x83, CHR 0x86, CHR 0xE3, CHR 0x82, CHR 0xB9, CHR 0xE3, CHR 0x83, CHR 0x88]"

definition copy_suffix :: string where
  "copy_suffix =
     [CHR 0xE3, CHR 0x81, CHR 0xAE, CHR 0xE3, CHR 0x82, CHR 0xB3,
      CHR 0xE3, CHR 0x83, CHR 0x94, CHR 0xE3, CHR 0x83, CHR 0xBC]"

definition scope :: string where
  "scope = ''https://www.googleapis.com/auth/spreadsheets''"

definition createSpreadsheet :: "'w Service \<Rightarrow> ('w, error + Spreadsheet) prog" where
  "createSpreadsheet srv =
     (let spreadsheet =
            \<lparr>SpreadsheetId = '''',
             Properties_Spreadsheet = Some \<lparr>Title_Spreadsheet = title_bytes\<rparr>,
             Sheets = []\<rparr>
      in seq (call (CreateCall spreadsheet) GotSpreadsheet (Create srv spreadsheet))
           (\<lambda>r. case r of
             Inl err \<Rightarrow> return (Inl err)
           | Inr newSheet \<Rightarrow> return (Inr newSheet)))"

definition getSpreadsheet :: "'w Service \<Rightarrow> string \<Rightarrow> ('w, error + Spreadsheet) prog" where
  "getSpreadsheet srv spreadsheetId =
     seq (call (GetCall spreadsheetId) GotSpreadsheet (Get srv spreadsheetId))
       (\<lambda>r. case r of
         Inl err \<Rightarrow> return (Inl err)
       | Inr spreadsheet \<Rightarrow> return (Inr spreadsheet))"

text \<open>
  The body of the copy loop (\<open>quickstart.go\<close> lines 102 to 130, and the same text at
  lines 117 to 147 of the other file).
\<close>

definition copySheet :: "'w Service \<Rightarrow> string \<Rightarrow> string \<Rightarrow> Sheet option \<Rightarrow> ('w, unit) prog" where
  "copySheet srv sourceSpreadsheetId destinationSpreadsheetId sheet =
     (let rb = destinationSpreadsheetId in
      seq (deref sheet) (\<lambda>sh. seq (deref (Properties sh)) (\<lambda>props.
        seq (call (CopyToCall sourceSpreadsheetId (SheetId props) rb) GotSheet
               (CopyTo srv sourceSpreadsheetId (SheetId props) rb))
          (\<lambda>r. case r of
            Inl err \<Rightarrow> fatal (message err)
          | Inr resp \<Rightarrow>
              (let newSheetTitle = TrimSuffix (Title resp) copy_suffix;
                   updateSheetNameRequest =
                     UpdateSheetProperties
                       \<lparr>SheetId = SheetId resp, Title = newSheetTitle\<rparr> ''title'';
                   batchUpdateRequest = [updateSheetNameRequest]
               in seq (call (BatchUpdateCall destinationSpreadsheetId batchUpdateRequest)
                         (\<lambda>_. Done)
                         (BatchUpdate srv destinationSpreadsheetId batchUpdateRequest))
                    (\<lambda>r. case r of
                      Inl err \<Rightarrow> fatalf ''Unable to update sheet name: '' err
                    | Inr _ \<Rightarrow> return ()))))))"

definition copySpreadsheet ::
  "Spreadsheet \<Rightarrow> 'w Service \<Rightarrow> string \<Rightarrow> string \<Rightarrow> ('w, error option) prog" where
  "copySpreadsheet sourceSpreadsheet srv sourceSpreadsheetId destinationSpreadsheetId =
     seq (forEach (Sheets sourceSpreadsheet)
            (copySheet srv sourceSpreadsheetId destinationSpreadsheetId))
       (\<lambda>_. return None)"

definition deleteBlankSheet ::
  "'w Service \<Rightarrow> Spreadsheet \<Rightarrow> string \<Rightarrow> ('w, error option) prog" where
  "deleteBlankSheet srv newSheet destinationSpreadsheetId =
     seq (index (Sheets newSheet) 0) (\<lambda>sheet. seq (deref sheet) (\<lambda>sh.
       seq (deref (Properties sh)) (\<lambda>props.
         (let blankSheetId = SheetId props;
              deleteSheetRequest = DeleteSheet blankSheetId;
              batchUpdateRequest = [deleteSheetRequest]
          in seq (call (BatchUpdateCall destinationSpreadsheetId batchUpdateRequest)
                    (\<lambda>_. Done)
                    (BatchUpdate srv destinationSpreadsheetId batchUpdateRequest))
               (\<lambda>r. case r of
                 Inl err \<Rightarrow> fatalf ''Unable to delete sheet: '' err
               | Inr _ \<Rightarrow> return None)))))"

text \<open>
  The body of the loop that writes the year and the month (\<open>quickstart.go\<close> lines 165 to
  181, and the same text at lines 183 to 199 of the other file).
\<close>

definition writeYearMonth ::
  "'w Service \<Rightarrow> string \<Rightarrow> int \<Rightarrow> int \<Rightarrow> Sheet option \<Rightarrow> ('w, unit) prog" where
  "writeYearMonth srv destinationSpreadsheetId year month sheet =
     seq (deref sheet) (\<lambda>sh. seq (deref (Properties sh)) (\<lambda>props.
       (let sheetName = Title props;
            values = [[year], [], [month]];
            updateValuesRequest =
              \<lparr>Range = sheetName @ ''!A1:A3'', Values = values, MajorDimension = ''ROWS''\<rparr>
        in seq (call (ValuesUpdateCall destinationSpreadsheetId (Range updateValuesRequest)
                        updateValuesRequest ''RAW'')
                  (\<lambda>_. Done)
                  (ValuesUpdate srv destinationSpreadsheetId (Range updateValuesRequest)
                     updateValuesRequest ''RAW''))
             (\<lambda>r. case r of
               Inl err \<Rightarrow> fatalf ''Unable to update cells with year and month: '' err
             | Inr _ \<Rightarrow> return ()))))"

definition updateCellsYearMonth ::
  "'w Sys \<Rightarrow> 'w Service \<Rightarrow> Spreadsheet \<Rightarrow> string \<Rightarrow> ('w, error option) prog" where
  "updateCellsYearMonth sys srv destinationSpreadsheet destinationSpreadsheetId =
     seq (perform NowCall GotTime (Now sys)) (\<lambda>now.
       (let year = Year now; month = Month now
        in seq (forEach (Sheets destinationSpreadsheet)
                  (writeYearMonth srv destinationSpreadsheetId year month))
             (\<lambda>_. return None)))"

section \<open>\<open>main\<close> of \<open>quickstart.go\<close>\<close>

text \<open>Lines 205 to 241: what \<open>main\<close> does once it holds the service.\<close>

definition main_workflow :: "'w Sys \<Rightarrow> 'w Service \<Rightarrow> ('w, unit) prog" where
  "main_workflow sys srv =
     seq (createSpreadsheet srv) (\<lambda>r. case r of
       Inl err \<Rightarrow> fatalf ''Unable to createSpreadsheet: '' err
     | Inr newSheet \<Rightarrow>
        (let sourceSpreadsheetId = '''';
             destinationSpreadsheetId = SpreadsheetId newSheet
         in seq (getSpreadsheet srv sourceSpreadsheetId) (\<lambda>r. case r of
              Inl err \<Rightarrow> fatalf ''Unable to Get source spreadsheet: '' err
            | Inr sourceSpreadsheet \<Rightarrow>
               seq (copySpreadsheet sourceSpreadsheet srv sourceSpreadsheetId
                      destinationSpreadsheetId)
                 (\<lambda>err. case err of
                   Some e \<Rightarrow> fatalf ''Unable to copySpreadsheet: '' e
                 | None \<Rightarrow>
                    seq (if length (Sheets sourceSpreadsheet) > 0
                         then seq (deleteBlankSheet srv newSheet destinationSpreadsheetId)
                                (\<lambda>err. case err of
                                  Some e \<Rightarrow> fatalf ''Unable to delete blank sheet: '' e
                                | None \<Rightarrow> return ())
                         else return ())
                      (\<lambda>_. seq (getSpreadsheet srv destinationSpreadsheetId) (\<lambda>r. case r of
                         Inl err \<Rightarrow> fatalf ''Unable to retrieve sheets: '' err
                       | Inr destinationSpreadsheet \<Rightarrow>
                          seq (updateCellsYearMonth sys srv destinationSpreadsheet
                                 destinationSpreadsheetId)
                            (\<lambda>err. case err of
                              Some e \<Rightarrow>
                                fatalf ''Unable to update cells with year and month: '' e
                            | None \<Rightarrow> return ())))))))"

text \<open>Lines 187 to 203, then the workflow. Returning from \<open>main\<close> ends the process.\<close>

definition main :: "'w Sys \<Rightarrow> ('w, unit) prog" where
  "main sys =
     seq (call (ReadFileCall ''credentials.json'') GotBytes (ReadFile sys ''credentials.json''))
       (\<lambda>r. case r of
         Inl err \<Rightarrow> fatalf ''Unable to ReaFile: '' err
       | Inr b \<Rightarrow>
          seq (call (ConfigFromJSONCall b scope) GotConfig (pure (ConfigFromJSON sys b scope)))
            (\<lambda>r. case r of
              Inl err \<Rightarrow> fatalf ''Unable to ConfigFromJSON: '' err
            | Inr config \<Rightarrow>
               seq (getClient sys config) (\<lambda>client.
                 seq (call (NewServiceCall client) (\<lambda>_. GotService)
                        (pure (NewService sys client)))
                   (\<lambda>r. case r of
                     Inl err \<Rightarrow> fatalf ''Unable to NewService: '' err
                   | Inr srv \<Rightarrow> main_workflow sys srv))))"

section \<open>\<open>main\<close> of the single-function file\<close>

text \<open>
  The expression \<open>newSheet.Sheets[0].Properties.SheetId\<close>, as the single-function file
  evaluates it at line 151: an index into the slice, then two pointer dereferences.
\<close>

definition blankSheetId_of :: "Spreadsheet \<Rightarrow> ('w, int64) prog" where
  "blankSheetId_of newSheet =
     seq (index (Sheets newSheet) 0) (\<lambda>sheet. seq (deref sheet) (\<lambda>sh.
       seq (deref (Properties sh)) (\<lambda>props. return (SheetId props))))"

text \<open>Lines 91 to 200 of the file whose \<open>main\<close> holds the whole workflow.\<close>

definition main_workflow_part_000 :: "'w Sys \<Rightarrow> 'w Service \<Rightarrow> ('w, unit) prog" where
  "main_workflow_part_000 sys srv =
     (let spreadsheet =
            \<lparr>SpreadsheetId = '''',
             Properties_Spreadsheet = Some \<lparr>Title_Spreadsheet = title_bytes\<rparr>,
             Sheets = []\<rparr>
      in seq (call (CreateCall spreadsheet) GotSpreadsheet (Create srv spreadsheet))
       (\<lambda>r. case r of
         Inl err \<Rightarrow> fatalf ''Unable to Create: '' err
       | Inr newSheet \<Rightarrow>
          (let sourceSpreadsheetId = '''';
               destinationSpreadsheetId = SpreadsheetId newSheet
           in seq (call (GetCall sourceSpreadsheetId) GotSpreadsheet
                     (Get srv sourceSpreadsheetId))
            (\<lambda>r. case r of
              Inl err \<Rightarrow> fatalf ''Unable to Get source spreadsheet: '' err
            | Inr sourceSpreadsheet \<Rightarrow>
               seq (forEach (Sheets sourceSpreadsheet)
                      (copySheet srv sourceSpreadsheetId destinationSpreadsheetId))
                (\<lambda>_. seq (blankSheetId_of newSheet) (\<lambda>blankSheetId.
                  seq (if length (Sheets sourceSpreadsheet) > 0
                       then (let deleteSheetRequest = DeleteSheet blankSheetId;
                                 batchUpdateRequest = [deleteSheetRequest]
                             in seq (call (BatchUpdateCall destinationSpreadsheetId
                                             batchUpdateRequest)
                                       (\<lambda>_. Done)
                                       (BatchUpdate srv destinationSpreadsheetId
                                          batchUpdateRequest))
                                  (\<lambda>r. case r of
                                    Inl err \<Rightarrow> fatalf ''Unable to delete blank sheet: '' err
                                  | Inr _ \<Rightarrow> return ()))
                       else return ())
                   (\<lambda>_. seq (call (GetCall destinationSpreadsheetId) GotSpreadsheet
                               (Get srv destinationSpreadsheetId))
                     (\<lambda>r. case r of
                       Inl err \<Rightarrow> fatalf ''Unable to retrieve sheets: '' err
                     | Inr s \<Rightarrow>
                        seq (perform NowCall GotTime (Now sys)) (\<lambda>now.
                          (let year = Year now; month = Month now
                           in forEach (Sheets s)
                                (writeYearMonth srv destinationSpreadsheetId
                                   year month)))))))))))"

definition main_part_000 :: "'w Sys \<Rightarrow> ('w, unit) prog" where
  "main_part_000 sys =
     seq (call (ReadFileCall ''credentials.json'') GotBytes (ReadFile sys ''credentials.json''))
       (\<lambda>r. case r of
         Inl err \<Rightarrow> fatalf ''Unable to ReaFile: '' err
       | Inr b \<Rightarrow>
          seq (call (ConfigFromJSONCall b scope) GotConfig (pure (ConfigFromJSON sys b scope)))
            (\<lambda>r. case r of
              Inl err \<Rightarrow> fatalf ''Unable to ConfigFromJSON: '' err
            | Inr config \<Rightarrow>
               seq (getClient sys config) (\<lambda>client.
                 seq (call (NewServiceCall client) (\<lambda>_. GotService)
                        (pure (NewService sys client)))
                   (\<lambda>r. case r of
                     Inl err \<Rightarrow> fatalf ''Unable to NewService: '' err
                   | Inr srv \<Rightarrow> main_workflow_part_000 sys srv))))"

section \<open>Transcripts\<close>

text \<open>
  The vocabulary in which the properties of the runs are stated. A sheet whose pointers are
  all set is \<open>sheet_of p\<close>; \<open>requested\<close> is the spreadsheet the program asks the service
  to create; \<open>copy_events\<close> is one copy answered by \<open>resp\<close> and the rename that follows it;
  \<open>write_event\<close> is the write of the year and the month to one sheet.
\<close>

definition sheet_of :: "SheetProperties \<Rightarrow> Sheet option" where
  "sheet_of p = Some \<lparr>Properties = Some p\<rparr>"

definition requested :: Spreadsheet where
  "requested =
     \<lparr>SpreadsheetId = '''',
      Properties_Spreadsheet = Some \<lparr>Title_Spreadsheet = title_bytes\<rparr>,
      Sheets = []\<rparr>"

definition rename_request :: "SheetProperties \<Rightarrow> Request" where
  "rename_request resp =
     UpdateSheetProperties
       \<lparr>SheetId = SheetId resp, Title = TrimSuffix (Title resp) copy_suffix\<rparr> ''title''"

definition copy_events :: "string \<Rightarrow> string \<Rightarrow> SheetProperties \<times> SheetProperties \<Rightarrow> event list" where
  "copy_events src dst pr =
     [(CopyToCall src (SheetId (fst pr)) dst, GotSheet (snd pr)),
      (BatchUpdateCall dst [rename_request (snd pr)], Done)]"

definition write_event :: "string \<Rightarrow> int \<Rightarrow> int \<Rightarrow> SheetProperties \<Rightarrow> event" where
  "write_event dst year month p =
     (ValuesUpdateCall dst (Title p @ ''!A1:A3'')
        \<lparr>Range = Title p @ ''!A1:A3'', Values = [[year], [], [month]],
         MajorDimension = ''ROWS''\<rparr>
        ''RAW'',
      Done)"

text \<open>The requests that go to the spreadsheet service.\<close>

definition is_api :: "request \<Rightarrow> bool" where
  "is_api c =
     (case c of
        CreateCall _ \<Rightarrow> True
      | GetCall _ \<Rightarrow> True
      | CopyToCall _ _ _ \<Rightarrow> True
      | BatchUpdateCall _ _ \<Rightarrow> True
      | ValuesUpdateCall _ _ _ _ \<Rightarrow> True
      | _ \<Rightarrow> False)"

definition api_calls :: "event list \<Rightarrow> request list" where
  "api_calls evs = filter is_api (map fst evs)"

definition is_write :: "request \<Rightarrow> bool" where
  "is_write c = (case c of ValuesUpdateCall _ _ _ _ \<Rightarrow> True | _ \<Rightarrow> False)"

definition is_delete :: "request \<Rightarrow> bool" where
  "is_delete c = (case c of BatchUpdateCall _ [DeleteSheet _] \<Rightarrow> True | _ \<Rightarrow> False)"

text \<open>
  A failed step is \<open>aborting\<close> unless it is one of the three the program lives with:
  opening the token file for reading, decoding it, and encoding the new token into it.
  A run is \<open>disciplined\<close> when an aborting failure is the last thing it does and ends it
  with \<open>log.Fatal\<close>, and when nothing else ends it so.
\<close>

definition tolerated :: "request \<Rightarrow> bool" where
  "tolerated c =
     (case c of OpenCall _ \<Rightarrow> True | DecodeCall _ \<Rightarrow> True | EncodeCall _ _ \<Rightarrow> True | _ \<Rightarrow> False)"

definition is_failure :: "reply \<Rightarrow> bool" where
  "is_failure rep = (case rep of Failed _ \<Rightarrow> True | _ \<Rightarrow> False)"

definition aborting :: "event \<Rightarrow> bool" where
  "aborting ev \<longleftrightarrow> is_failure (snd ev) \<and> \<not> tolerated (fst ev)"

definition disciplined :: "abort + 'a \<Rightarrow> event list \<Rightarrow> bool" where
  "disciplined r new \<longleftrightarrow>
     (case r of
        Inl (Fatal _) \<Rightarrow> new \<noteq> [] \<and> aborting (last new) \<and> \<not> list_ex aborting (butlast new)
      | _ \<Rightarrow> \<not> list_ex aborting new)"

text \<open>
  The order of the requests to the service, as an automaton over them: create, fetch the
  source, copies each followed by a rename, one deletion after the last rename, fetch
  the destination, writes. Without a copy there is no deletion.
\<close>

datatype stage = Start | Created | SourceFetched | Copying | Copied | Deleted | DestinationFetched

definition advance :: "stage \<Rightarrow> request \<Rightarrow> stage option" where
  "advance q c =
     (case c of
        CreateCall _ \<Rightarrow> (if q = Start then Some Created else None)
      | GetCall _ \<Rightarrow>
          (if q = Created then Some SourceFetched
           else if q = SourceFetched \<or> q = Deleted then Some DestinationFetched
           else None)
      | CopyToCall _ _ _ \<Rightarrow> (if q = SourceFetched \<or> q = Copied then Some Copying else None)
      | BatchUpdateCall _ reqs \<Rightarrow>
          (case reqs of
             [UpdateSheetProperties _ _] \<Rightarrow> (if q = Copying then Some Copied else None)
           | [DeleteSheet _] \<Rightarrow> (if q = Copied then Some Deleted else None)
           | _ \<Rightarrow> None)
      | ValuesUpdateCall _ _ _ _ \<Rightarrow>
          (if q = DestinationFetched then Some DestinationFetched else None)
      | _ \<Rightarrow> None)"

fun follows :: "stage \<Rightarrow> request list \<Rightarrow> stage option" where
  "follows q [] = Some q"
| "follows q (c # cs) = (case advance q c of None \<Rightarrow> None | Some q' \<Rightarrow> follows q' cs)"

text \<open>
  The transcript of the workflow when nothing fails: \<open>ns\<close> is the spreadsheet the
  service created, \<open>src\<close> the source it returned, \<open>prs\<close> pairs the properties of each
  source sheet with the answer to its copy, \<open>dels\<close> holds the deletion (or nothing),
  \<open>dst\<close> is the destination as fetched again, \<open>now\<close> the time read, and \<open>qs\<close> the
  properties of the sheets of \<open>dst\<close>.
\<close>

definition deletion :: "Spreadsheet \<Rightarrow> SheetProperties \<Rightarrow> event" where
  "deletion ns b = (BatchUpdateCall (SpreadsheetId ns) [DeleteSheet (SheetId b)], Done)"

definition script ::
  "Spreadsheet \<Rightarrow> Spreadsheet \<Rightarrow> (SheetProperties \<times> SheetProperties) list \<Rightarrow> event list \<Rightarrow>
   Spreadsheet \<Rightarrow> Time \<Rightarrow> SheetProperties list \<Rightarrow> event list" where
  "script ns src prs dels dst now qs =
     [(CreateCall requested, GotSpreadsheet ns), (GetCall '''', GotSpreadsheet src)] @
     concat (map (copy_events '''' (SpreadsheetId ns)) prs) @
     dels @
     [(GetCall (SpreadsheetId ns), GotSpreadsheet dst), (NowCall, GotTime now)] @
     map (write_event (SpreadsheetId ns) (Year now) (Month now)) qs"

text \<open>
  \<open>ordered q q'\<close>: the requests a run sends to the service are accepted by the automaton
  from stage \<open>q\<close>, and a run that returns leaves it in stage \<open>q'\<close>.
\<close>

definition ordered :: "stage \<Rightarrow> stage \<Rightarrow> abort + 'a \<Rightarrow> event list \<Rightarrow> bool" where
  "ordered q q' r new =
     (case follows q (api_calls new) of
        None \<Rightarrow> False
      | Some q'' \<Rightarrow> (case r of Inl _ \<Rightarrow> True | Inr _ \<Rightarrow> q'' = q'))"

text \<open>
  What a transcript shows: the spreadsheets the service created, the spreadsheets it
  returned to a fetch, and the deletions and the writes requested.
\<close>

definition creations :: "event list \<Rightarrow> Spreadsheet list" where
  "creations evs =
     concat (map (\<lambda>ev. case fst ev of
                          CreateCall _ \<Rightarrow> (case snd ev of GotSpreadsheet ss \<Rightarrow> [ss] | _ \<Rightarrow> [])
                        | _ \<Rightarrow> []) evs)"

definition fetched :: "event list \<Rightarrow> Spreadsheet list" where
  "fetched evs =
     concat (map (\<lambda>ev. case fst ev of
                          GetCall _ \<Rightarrow> (case snd ev of GotSpreadsheet ss \<Rightarrow> [ss] | _ \<Rightarrow> [])
                        | _ \<Rightarrow> []) evs)"

definition deletions :: "event list \<Rightarrow> event list" where
  "deletions evs = filter (\<lambda>ev. is_delete (fst ev)) evs"

definition writes :: "event list \<Rightarrow> event list" where
  "writes evs = filter (\<lambda>ev. is_write (fst ev)) evs"

text \<open>
  Two runs are the same when they leave the same transcript and the same world and end
  the same way; the text of a fatal message is not compared.
\<close>

definition same_end :: "abort + unit \<Rightarrow> abort + unit \<Rightarrow> bool" where
  "same_end r1 r2 =
     (case r1 of
        Inr _ \<Rightarrow> (case r2 of Inr _ \<Rightarrow> True | Inl _ \<Rightarrow> False)
      | Inl (Fatal _) \<Rightarrow> (case r2 of Inl (Fatal _) \<Rightarrow> True | _ \<Rightarrow> False)
      | Inl (Panic p) \<Rightarrow> (case r2 of Inl (Panic q) \<Rightarrow> p = q | _ \<Rightarrow> False))"

definition same_run :: "(abort + unit) \<times> 'w state \<Rightarrow> (abort + unit) \<times> 'w state \<Rightarrow> bool" where
  "same_run a b \<longleftrightarrow> snd a = snd b \<and> same_end (fst a) (fst b)"

text \<open>
  \<open>obeys m P\<close>: every run of \<open>m\<close> only adds events to the transcript, and its result and
  the events it adds satisfy \<open>P\<close>.
\<close>

definition obeys :: "('w, 'a) prog \<Rightarrow> (abort + 'a \<Rightarrow> event list \<Rightarrow> bool) \<Rightarrow> bool" where
  "obeys m P \<longleftrightarrow> (\<forall>s r s'. m s = (r, s') \<longrightarrow> (\<exists>new. trace s' = trace s @ new \<and> P r new))"

section \<open>A concrete environment\<close>

text \<open>
  A small environment on which the definitions run: the state of the world counts the
  steps served so far, and the steps whose number is listed in \<open>bad\<close> fail. The service
  creates a spreadsheet with the sheets \<open>created\<close>, returns \<open>source\<close> for the empty
  identifier and \<open>destination\<close> for any other, and answers a copy of sheet \<open>i\<close> with
  sheet \<open>i + 100\<close>, whose title carries the copy suffix when \<open>i\<close> is 1.
\<close>

definition answer :: "nat list \<Rightarrow> 'a \<Rightarrow> nat \<Rightarrow> (error + 'a) \<times> nat" where
  "answer bad x n = (if n \<in> set bad then Inl (Error ''refused'') else Inr x, Suc n)"

definition demo_service ::
  "nat list \<Rightarrow> Sheet option list \<Rightarrow> Sheet option list \<Rightarrow> Sheet option list \<Rightarrow> nat Service" where
  "demo_service bad created source destination =
     \<lparr>Create = (\<lambda>req. answer bad
         \<lparr>SpreadsheetId = ''dst'', Properties_Spreadsheet = Properties_Spreadsheet req,
          Sheets = created\<rparr>),
      Get = (\<lambda>sid. answer bad
         \<lparr>SpreadsheetId = sid, Properties_Spreadsheet = None,
          Sheets = (if sid = '''' then source else destination)\<rparr>),
      CopyTo = (\<lambda>src i dst. answer bad
         \<lparr>SheetId = i + 100,
          Title = (if i = 1 then ''Shift'' @ copy_suffix else ''Notes'')\<rparr>),
      BatchUpdate = (\<lambda>sid reqs. answer bad ()),
      ValuesUpdate = (\<lambda>sid rng vr opt. answer bad ())\<rparr>"

definition demo_sys ::
  "nat list \<Rightarrow> Sheet option list \<Rightarrow> Sheet option list \<Rightarrow> Sheet option list \<Rightarrow> nat Sys" where
  "demo_sys bad created source destination =
     \<lparr>ReadFile = (\<lambda>path. answer bad ''{}''),
      ConfigFromJSON = (\<lambda>b sc. Inr (Config sc)),
      Open = (\<lambda>path. answer bad (File path)),
      Decode = (\<lambda>f n. ((Token ''cached'',
                 if n \<in> set bad then Some (Error ''refused'') else None), Suc n)),
      Scan = answer bad ''code'',
      Exchange = (\<lambda>config code. answer bad (Token ''fresh'')),
      OpenFile = (\<lambda>path. answer bad (File path)),
      Encode = (\<lambda>f tok n. (if n \<in> set bad then Some (Error ''refused'') else None, Suc n)),
      NewService = (\<lambda>client. Inr (demo_service bad created source destination)),
      Now = (\<lambda>n. (\<lparr>Year = 2024, Month = 5\<rparr>, n))\<rparr>"

definition start :: "nat state" where
  "start = \<lparr>world = 0, trace = []\<rparr>"

definition sheet1 :: "Sheet option" where
  "sheet1 = sheet_of \<lparr>SheetId = 1, Title = ''Shift''\<rparr>"

definition sheet2 :: "Sheet option" where
  "sheet2 = sheet_of \<lparr>SheetId = 2, Title = ''Notes''\<rparr>"

definition blank :: "Sheet option" where
  "blank = sheet_of \<lparr>SheetId = 0, Title = ''Sheet1''\<rparr>"

text \<open>
  The usual case: the new spreadsheet has its blank sheet, the source has two sheets,
  and the destination, fetched again, shows the two copies.
\<close>

definition usual_service :: "nat Service" where
  "usual_service = demo_service [] [blank] [sheet1, sheet2] [sheet1, sheet2]"

definition usual_sys :: "nat Sys" where
  "usual_sys = demo_sys [] [blank] [sheet1, sheet2] [sheet1, sheet2]"

definition created_demo :: Spreadsheet where
  "created_demo =
     \<lparr>SpreadsheetId = ''dst'',
      Properties_Spreadsheet = Some \<lparr>Title_Spreadsheet = title_bytes\<rparr>,
      Sheets = [blank]\<rparr>"

definition source_demo :: Spreadsheet where
  "source_demo =
     \<lparr>SpreadsheetId = '''', Properties_Spreadsheet = None, Sheets = [sheet1, sheet2]\<rparr>"

definition destination_demo :: Spreadsheet where
  "destination_demo =
     \<lparr>SpreadsheetId = ''dst'', Properties_Spreadsheet = None, Sheets = [sheet1, sheet2]\<rparr>"

text \<open>A source without sheets, and a service that creates a spreadsheet without sheets.\<close>

definition bare_sys :: "nat Sys" where
  "bare_sys = demo_sys [] [blank] [] [blank]"

definition hollow_sys :: "nat Sys" where
  "hollow_sys = demo_sys [] [] [] [blank]"

text \<open>A first run: there is no \<open>token.json\<close> to open (step 1 fails).\<close>

definition first_run_sys :: "nat Sys" where
  "first_run_sys = demo_sys [1] [blank] [sheet1, sheet2] [sheet1, sheet2]"

text \<open>A run in which the second copy is refused (step 7).\<close>

definition refusing_sys :: "nat Sys" where
  "refusing_sys = demo_sys [7] [blank] [sheet1, sheet2] [sheet1, sheet2]"

section \<open>Running the definitions\<close>

lemma seq_result:
  "seq m f s = (r, s') \<longleftrightarrow>
     (\<exists>a. m s = (Inl a, s') \<and> r = Inl a) \<or> (\<exists>x s1. m s = (Inr x, s1) \<and> f x s1 = (r, s'))"
  by (auto simp: seq_def split: prod.splits sum.splits)

lemma Sheet_eq: "(sh = \<lparr>Properties = p\<rparr>) = (Properties sh = p)"
  by (cases sh) simp

lemma sheet_of_eq: "(sheet = sheet_of p) = (\<exists>sh. sheet = Some sh \<and> Properties sh = Some p)"
  by (cases sheet) (auto simp: sheet_of_def Sheet_eq)

lemmas step_defs =
  seq_def deref_def index_def call_def perform_def fatal_def fatalf_def return_def pure_def Let_def

lemmas demo_defs =
  answer_def demo_service_def demo_sys_def start_def sheet1_def sheet2_def blank_def sheet_of_def

lemma copySheet_abort:
  assumes "copySheet srv a d sheet s = (Inl ab, s')"
  shows "\<exists>tail. trace s' = trace s @ tail \<and>
    ((ab = Panic NilDereference \<and> tail = []) \<or>
     (\<exists>i e. ab = Fatal (message e) \<and> tail = [(CopyToCall a i d, Failed e)]) \<or>
     (\<exists>i resp e. ab = Fatal (''Unable to update sheet name: '' @ message e) \<and>
        tail = [(CopyToCall a i d, GotSheet resp),
                (BatchUpdateCall d [rename_request resp], Failed e)]))"
  using assms
  by (auto simp: copySheet_def step_defs rename_request_def
      split: prod.splits sum.splits option.splits)

lemma copySheet_ok:
  assumes "copySheet srv a d sheet s = (Inr u, s')"
  shows "\<exists>p resp. sheet = sheet_of p \<and> trace s' = trace s @ copy_events a d (p, resp)"
  using assms
  by (auto simp: copySheet_def step_defs sheet_of_eq rename_request_def copy_events_def
      split: prod.splits sum.splits option.splits)

lemma writeYearMonth_abort:
  assumes "writeYearMonth srv d y m sheet s = (Inl ab, s')"
  shows "\<exists>tail. trace s' = trace s @ tail \<and>
    ((ab = Panic NilDereference \<and> tail = []) \<or>
     (\<exists>p e. ab = Fatal (''Unable to update cells with year and month: '' @ message e) \<and>
        tail = [(fst (write_event d y m p), Failed e)]))"
  using assms
  by (auto simp: writeYearMonth_def step_defs write_event_def
      split: prod.splits sum.splits option.splits)

lemma writeYearMonth_ok:
  assumes "writeYearMonth srv d y m sheet s = (Inr u, s')"
  shows "\<exists>p. sheet = sheet_of p \<and> trace s' = trace s @ [write_event d y m p]"
  using assms
  by (auto simp: writeYearMonth_def step_defs sheet_of_eq write_event_def
      split: prod.splits sum.splits option.splits)

lemma forEach_Cons_result:
  "forEach (x # xs) body s = (r, s') \<longleftrightarrow>
     (\<exists>ab. body x s = (Inl ab, s') \<and> r = Inl ab) \<or>
     (\<exists>s1. body x s = (Inr (), s1) \<and> forEach xs body s1 = (r, s'))"
  by (auto simp: seq_result)

lemma copy_loop_runs:
  "forEach sheets (copySheet srv a d) s = (r, s') \<Longrightarrow>
   \<exists>prs tail. trace s' = trace s @ concat (map (copy_events a d) prs) @ tail \<and>
     map sheet_of (map fst prs) = take (length prs) sheets \<and>
     ((r = Inr () \<and> tail = [] \<and> length prs = length sheets) \<or>
      (r = Inl (Panic NilDereference) \<and> tail = [] \<and> length prs < length sheets) \<or>
      (\<exists>i e. r = Inl (Fatal (message e)) \<and> tail = [(CopyToCall a i d, Failed e)]) \<or>
      (\<exists>i resp e. r = Inl (Fatal (''Unable to update sheet name: '' @ message e)) \<and>
         tail = [(CopyToCall a i d, GotSheet resp),
                 (BatchUpdateCall d [rename_request resp], Failed e)]))"
proof (induction sheets arbitrary: s)
  case Nil
  then have "r = Inr ()" "s' = s"
    by (auto simp: return_def)
  then show ?case
    by (intro exI [of _ "[]"]) simp
next
  case (Cons sheet sheets)
  from Cons.prems consider
    (stop) ab where "copySheet srv a d sheet s = (Inl ab, s')" "r = Inl ab"
  | (go) s1 where "copySheet srv a d sheet s = (Inr (), s1)"
      "forEach sheets (copySheet srv a d) s1 = (r, s')"
    unfolding forEach_Cons_result by blast
  then show ?case
  proof cases
    case stop
    from copySheet_abort [OF stop(1)] obtain tail where
      tail: "trace s' = trace s @ tail"
        "(ab = Panic NilDereference \<and> tail = []) \<or>
         (\<exists>i e. ab = Fatal (message e) \<and> tail = [(CopyToCall a i d, Failed e)]) \<or>
         (\<exists>i resp e. ab = Fatal (''Unable to update sheet name: '' @ message e) \<and>
            tail = [(CopyToCall a i d, GotSheet resp),
                    (BatchUpdateCall d [rename_request resp], Failed e)])"
      by blast
    show ?thesis
      using tail stop(2)
      by (intro exI [of _ "[]"] exI [of _ tail]) simp
  next
    case go
    from copySheet_ok [OF go(1)] obtain p resp where
      p: "sheet = sheet_of p" "trace s1 = trace s @ copy_events a d (p, resp)"
      by blast
    from Cons.IH [OF go(2)] obtain prs tail where
      prs: "trace s' = trace s1 @ concat (map (copy_events a d) prs) @ tail"
        "map sheet_of (map fst prs) = take (length prs) sheets"
        "(r = Inr () \<and> tail = [] \<and> length prs = length sheets) \<or>
         (r = Inl (Panic NilDereference) \<and> tail = [] \<and> length prs < length sheets) \<or>
         (\<exists>i e. r = Inl (Fatal (message e)) \<and> tail = [(CopyToCall a i d, Failed e)]) \<or>
         (\<exists>i resp e. r = Inl (Fatal (''Unable to update sheet name: '' @ message e)) \<and>
            tail = [(CopyToCall a i d, GotSheet resp),
                    (BatchUpdateCall d [rename_request resp], Failed e)])"
      by blast
    show ?thesis
      using p prs
      by (intro exI [of _ "(p, resp) # prs"] exI [of _ tail]) auto
  qed
qed

lemma write_loop_runs:
  "forEach sheets (writeYearMonth srv d y m) s = (r, s') \<Longrightarrow>
   \<exists>ps tail. trace s' = trace s @ map (write_event d y m) ps @ tail \<and>
     map sheet_of ps = take (length ps) sheets \<and>
     ((r = Inr () \<and> tail = [] \<and> length ps = length sheets) \<or>
      (r = Inl (Panic NilDereference) \<and> tail = [] \<and> length ps < length sheets) \<or>
      (\<exists>p e. r = Inl (Fatal (''Unable to update cells with year and month: '' @ message e)) \<and>
         tail = [(fst (write_event d y m p), Failed e)]))"
proof (induction sheets arbitrary: s)
  case Nil
  then have "r = Inr ()" "s' = s"
    by (auto simp: return_def)
  then show ?case
    by (intro exI [of _ "[]"]) simp
next
  case (Cons sheet sheets)
  from Cons.prems consider
    (stop) ab where "writeYearMonth srv d y m sheet s = (Inl ab, s')" "r = Inl ab"
  | (go) s1 where "writeYearMonth srv d y m sheet s = (Inr (), s1)"
      "forEach sheets (writeYearMonth srv d y m) s1 = (r, s')"
    unfolding forEach_Cons_result by blast
  then show ?case
  proof cases
    case stop
    from writeYearMonth_abort [OF stop(1)] obtain tail where
      tail: "trace s' = trace s @ tail"
        "(ab = Panic NilDereference \<and> tail = []) \<or>
         (\<exists>p e. ab = Fatal (''Unable to update cells with year and month: '' @ message e) \<and>
            tail = [(fst (write_event d y m p), Failed e)])"
      by blast
    show ?thesis
      using tail stop(2)
      by (intro exI [of _ "[]"] exI [of _ tail]) simp
  next
    case go
    from writeYearMonth_ok [OF go(1)] obtain p where
      p: "sheet = sheet_of p" "trace s1 = trace s @ [write_event d y m p]"
      by blast
    from Cons.IH [OF go(2)] obtain ps tail where
      ps: "trace s' = trace s1 @ map (write_event d y m) ps @ tail"
        "map sheet_of ps = take (length ps) sheets"
        "(r = Inr () \<and> tail = [] \<and> length ps = length sheets) \<or>
         (r = Inl (Panic NilDereference) \<and> tail = [] \<and> length ps < length sheets) \<or>
         (\<exists>p e. r = Inl (Fatal (''Unable to update cells with year and month: '' @ message e)) \<and>
            tail = [(fst (write_event d y m p), Failed e)])"
      by blast
    show ?thesis
      using p ps
      by (intro exI [of _ "p # ps"] exI [of _ tail]) auto
  qed
qed

section \<open>TrimSuffix\<close>




section \<open>The error results of the three operations\<close>

lemmas usual_defs =
  usual_service_def usual_sys_def created_demo_def source_demo_def destination_demo_def

text \<open>
  C10. \<open>copySpreadsheet\<close>, \<open>deleteBlankSheet\<close> and \<open>updateCellsYearMonth\<close> declare an
  error result, yet whenever one of them returns, the error it returns is \<open>nil\<close>: a
  failure inside them ends the process and never reaches the caller.
\<close>

theorem error_results_are_nil:
  "(copySpreadsheet src srv a d s = (Inr e1, s1) \<longrightarrow> e1 = None) \<and>
   (deleteBlankSheet srv newSheet d s = (Inr e2, s2) \<longrightarrow> e2 = None) \<and>
   (updateCellsYearMonth sys srv dst d s = (Inr e3, s3) \<longrightarrow> e3 = None)"
  by (auto simp: copySpreadsheet_def deleteBlankSheet_def updateCellsYearMonth_def step_defs
      split: prod.splits sum.splits option.splits if_splits)

theorem error_results_are_nil_witness:
  "fst (copySpreadsheet source_demo usual_service '''' ''dst'' start) = Inr None \<and>
   fst (deleteBlankSheet usual_service created_demo ''dst'' start) = Inr None \<and>
   fst (updateCellsYearMonth usual_sys usual_service destination_demo ''dst'' start) = Inr None"
  using error_results_are_nil [of source_demo usual_service "''''" "''dst''" start None
      "snd (copySpreadsheet source_demo usual_service '''' ''dst'' start)"
      created_demo None "snd (deleteBlankSheet usual_service created_demo ''dst'' start)"
      usual_sys destination_demo None
      "snd (updateCellsYearMonth usual_sys usual_service destination_demo ''dst'' start)"]
  by (simp add: copySpreadsheet_def deleteBlankSheet_def updateCellsYearMonth_def copySheet_def
      writeYearMonth_def step_defs demo_defs usual_defs)

section \<open>Reading the first sheet of the new spreadsheet\<close>

text \<open>
  C9. \<open>newSheet.Sheets[0]\<close> is indexed without a bounds check: when the created
  spreadsheet has no sheet the access is out of range and the run panics there, before
  any request is made; when it has at least one sheet the index is in range.
\<close>

theorem first_sheet_index:
  "(Sheets newSheet = [] \<longrightarrow>
      deleteBlankSheet srv newSheet d s = (Inl (Panic IndexOutOfRange), s) \<and>
      blankSheetId_of newSheet s = (Inl (Panic IndexOutOfRange), s)) \<and>
   (Sheets newSheet \<noteq> [] \<longrightarrow>
      fst (deleteBlankSheet srv newSheet d s) \<noteq> Inl (Panic IndexOutOfRange) \<and>
      fst (blankSheetId_of newSheet s) \<noteq> Inl (Panic IndexOutOfRange))"
  by (auto simp: deleteBlankSheet_def blankSheetId_of_def step_defs
      split: prod.splits sum.splits option.splits)

theorem first_sheet_index_witness:
  "deleteBlankSheet usual_service (created_demo\<lparr>Sheets := []\<rparr>) ''dst'' start =
     (Inl (Panic IndexOutOfRange), start) \<and>
   blankSheetId_of (created_demo\<lparr>Sheets := []\<rparr>) start = (Inl (Panic IndexOutOfRange), start) \<and>
   fst (deleteBlankSheet usual_service created_demo ''dst'' start) = Inr None \<and>
   fst (blankSheetId_of created_demo start) = Inr 0"
  using first_sheet_index [of "created_demo\<lparr>Sheets := []\<rparr>" usual_service "''dst''" start]
    first_sheet_index [of created_demo usual_service "''dst''" start]
  by (simp add: deleteBlankSheet_def blankSheetId_of_def step_defs demo_defs usual_defs)

section \<open>Copying and renaming\<close>

lemma copySpreadsheet_result:
  "copySpreadsheet src srv a d s = (r, s') \<longleftrightarrow>
     (\<exists>ab. forEach (Sheets src) (copySheet srv a d) s = (Inl ab, s') \<and> r = Inl ab) \<or>
     (forEach (Sheets src) (copySheet srv a d) s = (Inr (), s') \<and> r = Inr None)"
  by (auto simp: copySpreadsheet_def seq_result return_def)



section \<open>The steps of the workflow\<close>

lemma createSpreadsheet_eq:
  "createSpreadsheet srv = call (CreateCall requested) GotSpreadsheet (Create srv requested)"
  by (rule ext) (auto simp: createSpreadsheet_def requested_def step_defs split: prod.splits sum.splits)

lemma getSpreadsheet_eq:
  "getSpreadsheet srv sid = call (GetCall sid) GotSpreadsheet (Get srv sid)"
  by (rule ext) (auto simp: getSpreadsheet_def step_defs split: prod.splits sum.splits)

lemma call_result:
  "call c conv f s = (r, s') \<longleftrightarrow>
     (\<exists>x w'. f (world s) = (x, w') \<and> r = Inr x \<and>
        s' = \<lparr>world = w', trace = trace s @ [(c, case x of Inl e \<Rightarrow> Failed e | Inr y \<Rightarrow> conv y)]\<rparr>)"
  by (auto simp: call_def perform_def split: prod.splits)

lemma call_trace:
  assumes "call c conv f s = (r, s')"
  shows "(\<exists>e. r = Inr (Inl e) \<and> trace s' = trace s @ [(c, Failed e)]) \<or>
         (\<exists>y. r = Inr (Inr y) \<and> trace s' = trace s @ [(c, conv y)])"
  using assms by (auto simp: call_def perform_def split: prod.splits sum.splits)

lemma perform_trace:
  assumes "perform c conv f s = (r, s')"
  shows "\<exists>x. r = Inr x \<and> trace s' = trace s @ [(c, conv x)]"
  using assms by (auto simp: perform_def split: prod.splits)

lemma deleteBlankSheet_ok:
  assumes "deleteBlankSheet srv ns d s = (Inr e, s')"
  shows "\<exists>b rest. Sheets ns = sheet_of b # rest \<and> e = None \<and>
           trace s' = trace s @ [(BatchUpdateCall d [DeleteSheet (SheetId b)], Done)]"
  using assms
  by (cases "Sheets ns")
     (auto simp: deleteBlankSheet_def step_defs sheet_of_eq
      split: prod.splits sum.splits option.splits if_splits)

lemma deleteBlankSheet_abort:
  assumes "deleteBlankSheet srv ns d s = (Inl ab, s')"
  shows "(\<exists>p. ab = Panic p \<and> s' = s \<and> (\<nexists>b rest. Sheets ns = sheet_of b # rest)) \<or>
         (\<exists>b rest e. Sheets ns = sheet_of b # rest \<and>
            ab = Fatal (''Unable to delete sheet: '' @ message e) \<and>
            trace s' = trace s @ [(BatchUpdateCall d [DeleteSheet (SheetId b)], Failed e)])"
  using assms
  by (cases "Sheets ns")
     (auto simp: deleteBlankSheet_def step_defs sheet_of_eq
      split: prod.splits sum.splits option.splits if_splits)

lemma updateCellsYearMonth_result:
  "updateCellsYearMonth sys srv dst d s = (r, s') \<longleftrightarrow>
     (\<exists>now w1. Now sys (world s) = (now, w1) \<and>
        ((\<exists>ab. forEach (Sheets dst) (writeYearMonth srv d (Year now) (Month now))
            \<lparr>world = w1, trace = trace s @ [(NowCall, GotTime now)]\<rparr> = (Inl ab, s') \<and>
            r = Inl ab) \<or>
         (forEach (Sheets dst) (writeYearMonth srv d (Year now) (Month now))
            \<lparr>world = w1, trace = trace s @ [(NowCall, GotTime now)]\<rparr> = (Inr (), s') \<and>
          r = Inr None)))"
  by (auto simp: updateCellsYearMonth_def step_defs split: prod.splits sum.splits)

lemma updateCellsYearMonth_ok:
  assumes "updateCellsYearMonth sys srv dst d s = (Inr e, s')"
  shows "\<exists>now qs. Sheets dst = map sheet_of qs \<and> e = None \<and>
           trace s' = trace s @ (NowCall, GotTime now) #
             map (write_event d (Year now) (Month now)) qs"
proof -
  from assms obtain now w1 where
    run: "forEach (Sheets dst) (writeYearMonth srv d (Year now) (Month now))
          \<lparr>world = w1, trace = trace s @ [(NowCall, GotTime now)]\<rparr> = (Inr (), s')"
    and e: "e = None"
    by (auto simp: updateCellsYearMonth_result)
  from write_loop_runs [OF run] obtain ps where
    "trace s' = (trace s @ [(NowCall, GotTime now)]) @ map (write_event d (Year now) (Month now)) ps"
    "map sheet_of ps = take (length ps) (Sheets dst)" "length ps = length (Sheets dst)"
    by auto
  with e show ?thesis
    by (intro exI [of _ now] exI [of _ ps]) simp
qed

lemma copySpreadsheet_ok:
  assumes "copySpreadsheet src srv a d s = (Inr e, s')"
  shows "\<exists>prs. Sheets src = map sheet_of (map fst prs) \<and> e = None \<and>
           trace s' = trace s @ concat (map (copy_events a d) prs)"
proof -
  from assms have run: "forEach (Sheets src) (copySheet srv a d) s = (Inr (), s')" and e: "e = None"
    by (auto simp: copySpreadsheet_result)
  from copy_loop_runs [OF run] obtain prs where
    "trace s' = trace s @ concat (map (copy_events a d) prs)"
    "map sheet_of (map fst prs) = take (length prs) (Sheets src)" "length prs = length (Sheets src)"
    by auto
  with e show ?thesis
    by (intro exI [of _ prs]) simp
qed

lemma seq_checked_Inr:
  "seq m (case_sum (fatalf p) g) s = (Inr u, s') \<longleftrightarrow>
     (\<exists>x s1. m s = (Inr (Inr x), s1) \<and> g x s1 = (Inr u, s'))"
  by (auto simp: seq_def fatalf_def fatal_def split: prod.splits sum.splits)

lemma seq_checked_option_Inr:
  "seq m (case_option g (fatalf p)) s = (Inr u, s') \<longleftrightarrow>
     (\<exists>s1. m s = (Inr None, s1) \<and> g s1 = (Inr u, s'))"
  by (auto simp: seq_def fatalf_def fatal_def split: prod.splits sum.splits option.splits)

lemma seq_if: "seq (if c then a else b) k = (if c then seq a k else seq b k)"
  by simp

lemma seq_return: "seq (return x) f = f x"
  by (rule ext) (simp add: seq_def return_def)

lemma seq_seq_checked_option_Inr:
  "seq (seq m (case_option (return ()) (fatalf p))) k s = (Inr u, s') \<longleftrightarrow>
     (\<exists>s1. m s = (Inr None, s1) \<and> k () s1 = (Inr u, s'))"
  by (auto simp: seq_def fatalf_def fatal_def return_def split: prod.splits sum.splits option.splits)

lemma return_result: "return x s = (r, s') \<longleftrightarrow> r = Inr x \<and> s' = s"
  by (auto simp: return_def)

lemma main_workflow_stages:
  assumes "main_workflow sys srv s = (Inr u, s')"
  shows "\<exists>ns s1 src s2 s3 s4 dst s5.
     call (CreateCall requested) GotSpreadsheet (Create srv requested) s = (Inr (Inr ns), s1) \<and>
     call (GetCall '''') GotSpreadsheet (Get srv '''') s1 = (Inr (Inr src), s2) \<and>
     copySpreadsheet src srv '''' (SpreadsheetId ns) s2 = (Inr None, s3) \<and>
     (if Sheets src = [] then s4 = s3
      else deleteBlankSheet srv ns (SpreadsheetId ns) s3 = (Inr None, s4)) \<and>
     call (GetCall (SpreadsheetId ns)) GotSpreadsheet (Get srv (SpreadsheetId ns)) s4 =
       (Inr (Inr dst), s5) \<and>
     updateCellsYearMonth sys srv dst (SpreadsheetId ns) s5 = (Inr None, s')"
  using assms
  unfolding main_workflow_def createSpreadsheet_eq getSpreadsheet_eq Let_def
  apply (simp only: seq_checked_Inr seq_checked_option_Inr seq_if if_distribR seq_return
        seq_seq_checked_option_Inr)
  apply (elim exE conjE)
  subgoal for ns s1 src s2 s3
    by (cases "Sheets src = []")
       (simp_all add: seq_checked_Inr seq_checked_option_Inr seq_seq_checked_option_Inr
          return_result)
  done

section \<open>The token cache\<close>

lemma tokenFromFile_runs:
  assumes "tokenFromFile sys file s = (r, s')"
  shows "\<exists>ev. trace s' = trace s @ ev \<and>
    ((\<exists>f tok. ev = [(OpenCall file, GotFile f), (DecodeCall f, GotToken tok)] \<and>
        r = Inr (Some tok, None)) \<or>
     (\<exists>e. ev = [(OpenCall file, Failed e)] \<and> r = Inr (None, Some e)) \<or>
     (\<exists>f tok e. ev = [(OpenCall file, GotFile f), (DecodeCall f, Failed e)] \<and>
        r = Inr (Some tok, Some e)))"
  using assms
  by (auto simp: tokenFromFile_def step_defs split: prod.splits sum.splits option.splits)

lemma web_flow_runs:
  assumes "seq (getTokenFromWeb sys config)
             (\<lambda>tok'. seq (saveToken sys file tok') (\<lambda>_. return (Some tok'))) s = (r, s')"
  shows "\<exists>web. trace s' = trace s @ web \<and>
    ((\<exists>e. web = [(ScanCall, Failed e)] \<and>
        (\<exists>m. r = Inl (Fatal m))) \<or>
     (\<exists>code e. web = [(ScanCall, GotText code), (ExchangeCall config code, Failed e)] \<and>
        (\<exists>m. r = Inl (Fatal m))) \<or>
     (\<exists>code tok e.
        web = [(ScanCall, GotText code), (ExchangeCall config code, GotToken tok),
               (OpenFileCall file, Failed e)] \<and>
        (\<exists>m. r = Inl (Fatal m))) \<or>
     (\<exists>code tok f rep.
        web = [(ScanCall, GotText code), (ExchangeCall config code, GotToken tok),
               (OpenFileCall file, GotFile f), (EncodeCall f tok, rep)] \<and>
        (rep = Done \<or> (\<exists>e. rep = Failed e)) \<and> r = Inr (Some tok)))"
  using assms
  by (auto simp: getTokenFromWeb_def saveToken_def step_defs
      split: prod.splits sum.splits option.splits)

lemma getClient_result:
  "getClient sys config s = (r, s') \<longleftrightarrow>
     (\<exists>tok s1. tokenFromFile sys ''token.json'' s = (Inr (tok, None), s1) \<and>
        r = Inr (HTTPClient config tok) \<and> s' = s1) \<or>
     (\<exists>tok e s1 r1. tokenFromFile sys ''token.json'' s = (Inr (tok, Some e), s1) \<and>
        seq (getTokenFromWeb sys config)
          (\<lambda>tok'. seq (saveToken sys ''token.json'' tok') (\<lambda>_. return (Some tok'))) s1 = (r1, s') \<and>
        (case r1 of Inl ab \<Rightarrow> r = Inl ab | Inr tok' \<Rightarrow> r = Inr (HTTPClient config tok'))) \<or>
     (\<exists>ab. tokenFromFile sys ''token.json'' s = (Inl ab, s') \<and> r = Inl ab)"
  unfolding getClient_def Let_def
  by (auto simp: seq_def return_def split: prod.splits sum.splits option.splits)

lemma getClient_runs:
  assumes "getClient sys config s = (r, s')"
  shows "\<exists>new. trace s' = trace s @ new \<and>
    ((\<exists>f tok. new = [(OpenCall ''token.json'', GotFile f), (DecodeCall f, GotToken tok)] \<and>
        r = Inr (HTTPClient config (Some tok))) \<or>
     (\<exists>miss web.
        new = miss @ web \<and>
        ((\<exists>e. miss = [(OpenCall ''token.json'', Failed e)]) \<or>
         (\<exists>f e. miss = [(OpenCall ''token.json'', GotFile f), (DecodeCall f, Failed e)])) \<and>
        ((\<exists>e. web = [(ScanCall, Failed e)] \<and>
            (\<exists>m. r = Inl (Fatal m))) \<or>
         (\<exists>code e. web = [(ScanCall, GotText code), (ExchangeCall config code, Failed e)] \<and>
            (\<exists>m. r = Inl (Fatal m))) \<or>
         (\<exists>code tok e.
            web = [(ScanCall, GotText code), (ExchangeCall config code, GotToken tok),
                   (OpenFileCall ''token.json'', Failed e)] \<and>
            (\<exists>m. r = Inl (Fatal m))) \<or>
         (\<exists>code tok f rep.
            web = [(ScanCall, GotText code), (ExchangeCall config code, GotToken tok),
                   (OpenFileCall ''token.json'', GotFile f), (EncodeCall f tok, rep)] \<and>
            (rep = Done \<or> (\<exists>e. rep = Failed e)) \<and>
            r = Inr (HTTPClient config (Some tok))))))"
proof -
  from assms consider
    (hit) tok s1 where "tokenFromFile sys ''token.json'' s = (Inr (tok, None), s1)"
      "r = Inr (HTTPClient config tok)" "s' = s1"
  | (miss) tok e s1 r1 where "tokenFromFile sys ''token.json'' s = (Inr (tok, Some e), s1)"
      "seq (getTokenFromWeb sys config)
         (\<lambda>tok'. seq (saveToken sys ''token.json'' tok') (\<lambda>_. return (Some tok'))) s1 = (r1, s')"
      "case r1 of Inl ab \<Rightarrow> r = Inl ab | Inr tok' \<Rightarrow> r = Inr (HTTPClient config tok')"
  | (abort) ab where "tokenFromFile sys ''token.json'' s = (Inl ab, s')"
    unfolding getClient_result by blast
  then show ?thesis
  proof cases
    case hit
    from tokenFromFile_runs [OF hit(1)] obtain f t where
      "trace s1 = trace s @ [(OpenCall ''token.json'', GotFile f), (DecodeCall f, GotToken t)]"
      "tok = Some t"
      by auto
    with hit(2,3) show ?thesis
      by (intro exI [of _ "[(OpenCall ''token.json'', GotFile f), (DecodeCall f, GotToken t)]"])
         blast
  next
    case miss
    from tokenFromFile_runs [OF miss(1)] obtain ev where
      ev: "trace s1 = trace s @ ev"
        "(\<exists>e. ev = [(OpenCall ''token.json'', Failed e)]) \<or>
         (\<exists>f e. ev = [(OpenCall ''token.json'', GotFile f), (DecodeCall f, Failed e)])"
      by auto
    from web_flow_runs [OF miss(2)] obtain web where
      web: "trace s' = trace s1 @ web"
        "(\<exists>e. web = [(ScanCall, Failed e)] \<and>
            (\<exists>m. r1 = Inl (Fatal m))) \<or>
         (\<exists>code e. web = [(ScanCall, GotText code), (ExchangeCall config code, Failed e)] \<and>
            (\<exists>m. r1 = Inl (Fatal m))) \<or>
         (\<exists>code tok e.
            web = [(ScanCall, GotText code), (ExchangeCall config code, GotToken tok),
                   (OpenFileCall ''token.json'', Failed e)] \<and>
            (\<exists>m. r1 = Inl (Fatal m))) \<or>
         (\<exists>code tok f rep.
            web = [(ScanCall, GotText code), (ExchangeCall config code, GotToken tok),
                   (OpenFileCall ''token.json'', GotFile f), (EncodeCall f tok, rep)] \<and>
            (rep = Done \<or> (\<exists>e. rep = Failed e)) \<and> r1 = Inr (Some tok))"
      by blast
    have tr: "trace s' = trace s @ (ev @ web)"
      using ev(1) web(1) by simp
    have flow:
      "(\<exists>e. web = [(ScanCall, Failed e)] \<and>
            (\<exists>m. r = Inl (Fatal m))) \<or>
         (\<exists>code e. web = [(ScanCall, GotText code), (ExchangeCall config code, Failed e)] \<and>
            (\<exists>m. r = Inl (Fatal m))) \<or>
         (\<exists>code tok e.
            web = [(ScanCall, GotText code), (ExchangeCall config code, GotToken tok),
                   (OpenFileCall ''token.json'', Failed e)] \<and>
            (\<exists>m. r = Inl (Fatal m))) \<or>
         (\<exists>code tok f rep.
            web = [(ScanCall, GotText code), (ExchangeCall config code, GotToken tok),
                   (OpenFileCall ''token.json'', GotFile f), (EncodeCall f tok, rep)] \<and>
            (rep = Done \<or> (\<exists>e. rep = Failed e)) \<and>
            r = Inr (HTTPClient config (Some tok)))"
      using web(2) miss(3) by (elim disjE exE conjE) simp_all
    show ?thesis
      apply (rule exI [of _ "ev @ web"])
      apply (rule conjI)
       apply (rule tr)
      apply (rule disjI2)
      apply (rule exI [of _ ev], rule exI [of _ web])
      apply (intro conjI)
        apply (rule refl)
       apply (rule ev(2))
      apply (rule flow)
      done
  next
    case abort
    from tokenFromFile_runs [OF abort] show ?thesis
      by auto
  qed
qed



section \<open>Runs that return\<close>

lemma call_ok:
  assumes "call c conv f s = (Inr (Inr y), s')"
  shows "trace s' = trace s @ [(c, conv y)]"
  using assms by (auto simp: call_def perform_def split: prod.splits)

lemma main_workflow_complete:
  assumes "main_workflow sys srv s = (Inr u, s')"
  shows "\<exists>ns src prs dels dst now qs.
     Sheets src = map sheet_of (map fst prs) \<and> Sheets dst = map sheet_of qs \<and>
     ((prs = [] \<and> dels = []) \<or>
      (prs \<noteq> [] \<and> (\<exists>b rest. Sheets ns = sheet_of b # rest \<and> dels = [deletion ns b]))) \<and>
     trace s' = trace s @ script ns src prs dels dst now qs"
proof -
  from main_workflow_stages [OF assms] obtain ns s1 src s2 s3 s4 dst s5 where
    c1: "call (CreateCall requested) GotSpreadsheet (Create srv requested) s = (Inr (Inr ns), s1)"
    and c2: "call (GetCall '''') GotSpreadsheet (Get srv '''') s1 = (Inr (Inr src), s2)"
    and c3: "copySpreadsheet src srv '''' (SpreadsheetId ns) s2 = (Inr None, s3)"
    and c4: "if Sheets src = [] then s4 = s3
        else deleteBlankSheet srv ns (SpreadsheetId ns) s3 = (Inr None, s4)"
    and c5: "call (GetCall (SpreadsheetId ns)) GotSpreadsheet (Get srv (SpreadsheetId ns)) s4 =
       (Inr (Inr dst), s5)"
    and c6: "updateCellsYearMonth sys srv dst (SpreadsheetId ns) s5 = (Inr None, s')"
    by blast
  have t1: "trace s1 = trace s @ [(CreateCall requested, GotSpreadsheet ns)]"
    by (rule call_ok [OF c1])
  have t2: "trace s2 = trace s1 @ [(GetCall '''', GotSpreadsheet src)]"
    by (rule call_ok [OF c2])
  from copySpreadsheet_ok [OF c3] obtain prs where
    prs: "Sheets src = map sheet_of (map fst prs)"
    and t3: "trace s3 = trace s2 @ concat (map (copy_events '''' (SpreadsheetId ns)) prs)"
    by blast
  have "\<exists>dels. trace s4 = trace s3 @ dels \<and>
     ((prs = [] \<and> dels = []) \<or>
      (prs \<noteq> [] \<and> (\<exists>b rest. Sheets ns = sheet_of b # rest \<and> dels = [deletion ns b])))"
  proof (cases "Sheets src = []")
    case True
    with c4 prs show ?thesis by simp
  next
    case False
    with c4 have "deleteBlankSheet srv ns (SpreadsheetId ns) s3 = (Inr None, s4)"
      by simp
    from deleteBlankSheet_ok [OF this] False prs show ?thesis
      by (auto simp: deletion_def)
  qed
  then obtain dels where
    t4: "trace s4 = trace s3 @ dels"
    and dels: "(prs = [] \<and> dels = []) \<or>
      (prs \<noteq> [] \<and> (\<exists>b rest. Sheets ns = sheet_of b # rest \<and> dels = [deletion ns b]))"
    by blast
  have t5: "trace s5 = trace s4 @ [(GetCall (SpreadsheetId ns), GotSpreadsheet dst)]"
    by (rule call_ok [OF c5])
  from updateCellsYearMonth_ok [OF c6] obtain now qs where
    qs: "Sheets dst = map sheet_of qs"
    and t6: "trace s' = trace s5 @ (NowCall, GotTime now) #
       map (write_event (SpreadsheetId ns) (Year now) (Month now)) qs"
    by blast
  have "trace s' = trace s @ script ns src prs dels dst now qs"
    by (simp add: t1 t2 t3 t4 t5 t6 script_def)
  with prs qs dels show ?thesis
    by blast
qed

lemma seq_getClient_Inr:
  "seq (getClient sys config) f s = (Inr u, s') \<longleftrightarrow>
     (\<exists>x s1. getClient sys config s = (Inr x, s1) \<and> f x s1 = (Inr u, s'))"
  by (auto simp: seq_def split: prod.splits sum.splits)

lemma main_stages:
  assumes "main sys s = (Inr u, s')"
  shows "\<exists>b s1 config s2 client s3 srv s4.
     call (ReadFileCall ''credentials.json'') GotBytes (ReadFile sys ''credentials.json'') s =
       (Inr (Inr b), s1) \<and>
     call (ConfigFromJSONCall b scope) GotConfig (pure (ConfigFromJSON sys b scope)) s1 =
       (Inr (Inr config), s2) \<and>
     getClient sys config s2 = (Inr client, s3) \<and>
     call (NewServiceCall client) (\<lambda>_. GotService) (pure (NewService sys client)) s3 =
       (Inr (Inr srv), s4) \<and>
     main_workflow sys srv s4 = (Inr u, s')"
  using assms unfolding main_def
  by (simp only: seq_checked_Inr seq_getClient_Inr) blast

lemma getClient_ok:
  assumes "getClient sys config s = (Inr client, s')"
  shows "\<exists>new. trace s' = trace s @ new \<and> api_calls new = []"
  using getClient_runs [OF assms]
  by (auto simp: api_calls_def is_api_def)

lemma main_complete:
  assumes "main sys s = (Inr u, s')"
  shows "\<exists>before ns src prs dels dst now qs.
     api_calls before = [] \<and>
     Sheets src = map sheet_of (map fst prs) \<and> Sheets dst = map sheet_of qs \<and>
     ((prs = [] \<and> dels = []) \<or>
      (prs \<noteq> [] \<and> (\<exists>b rest. Sheets ns = sheet_of b # rest \<and> dels = [deletion ns b]))) \<and>
     trace s' = trace s @ before @ script ns src prs dels dst now qs"
proof -
  from main_stages [OF assms] obtain b s1 config s2 client s3 srv s4 where
    c1: "call (ReadFileCall ''credentials.json'') GotBytes (ReadFile sys ''credentials.json'') s =
       (Inr (Inr b), s1)"
    and c2: "call (ConfigFromJSONCall b scope) GotConfig (pure (ConfigFromJSON sys b scope)) s1 =
       (Inr (Inr config), s2)"
    and c3: "getClient sys config s2 = (Inr client, s3)"
    and c4: "call (NewServiceCall client) (\<lambda>_. GotService) (pure (NewService sys client)) s3 =
       (Inr (Inr srv), s4)"
    and c5: "main_workflow sys srv s4 = (Inr u, s')"
    by blast
  from getClient_ok [OF c3] obtain new where
    new: "trace s3 = trace s2 @ new" "api_calls new = []"
    by blast
  define before where
    "before = [(ReadFileCall ''credentials.json'', GotBytes b),
               (ConfigFromJSONCall b scope, GotConfig config)] @ new @
              [(NewServiceCall client, GotService)]"
  have t4: "trace s4 = trace s @ before"
    using call_ok [OF c1] call_ok [OF c2] call_ok [OF c4] new(1)
    by (simp add: before_def)
  have api: "api_calls before = []"
    using new(2) by (simp add: before_def api_calls_def is_api_def)
  from main_workflow_complete [OF c5] obtain ns src prs dels dst now qs where
    "Sheets src = map sheet_of (map fst prs)" "Sheets dst = map sheet_of qs"
    "(prs = [] \<and> dels = []) \<or>
      (prs \<noteq> [] \<and> (\<exists>b rest. Sheets ns = sheet_of b # rest \<and> dels = [deletion ns b]))"
    "trace s' = trace s4 @ script ns src prs dels dst now qs"
    by blast
  with t4 api show ?thesis
    by (intro exI [of _ before] exI [of _ ns] exI [of _ src] exI [of _ prs] exI [of _ dels]
        exI [of _ dst] exI [of _ now] exI [of _ qs]) simp
qed

section \<open>What the transcript of a run that returns shows\<close>

lemmas show_defs =
  api_calls_def creations_def fetched_def deletions_def writes_def
  is_api_def is_delete_def is_write_def

lemma shows_append:
  "api_calls (xs @ ys) = api_calls xs @ api_calls ys"
  "creations (xs @ ys) = creations xs @ creations ys"
  "fetched (xs @ ys) = fetched xs @ fetched ys"
  "deletions (xs @ ys) = deletions xs @ deletions ys"
  "writes (xs @ ys) = writes xs @ writes ys"
  by (simp_all add: show_defs)

lemma shows_Nil:
  "api_calls [] = []" "creations [] = []" "fetched [] = []" "deletions [] = []" "writes [] = []"
  by (simp_all add: show_defs)

lemma not_api_shows_nothing:
  assumes "api_calls evs = []"
  shows "creations evs = [] \<and> fetched evs = [] \<and> deletions evs = [] \<and> writes evs = []"
  using assms
proof (induction evs)
  case Nil
  then show ?case by (simp add: shows_Nil)
next
  case (Cons ev evs)
  from Cons.prems have ev: "\<not> is_api (fst ev)" and evs: "api_calls evs = []"
    by (auto simp: api_calls_def split: if_splits)
  from ev have "creations [ev] = [] \<and> fetched [ev] = [] \<and> deletions [ev] = [] \<and> writes [ev] = []"
    by (cases "fst ev") (simp_all add: show_defs)
  with Cons.IH [OF evs] shows_append [of "[ev]" evs] show ?case
    by simp
qed

lemma copies_show:
  "length (api_calls (concat (map (copy_events a d) prs))) = 2 * length prs"
  "creations (concat (map (copy_events a d) prs)) = []"
  "fetched (concat (map (copy_events a d) prs)) = []"
  "deletions (concat (map (copy_events a d) prs)) = []"
  "writes (concat (map (copy_events a d) prs)) = []"
  by (induction prs) (simp_all add: show_defs copy_events_def rename_request_def)

lemma writes_show:
  "length (api_calls (map (write_event d y m) qs)) = length qs"
  "creations (map (write_event d y m) qs) = []"
  "fetched (map (write_event d y m) qs) = []"
  "deletions (map (write_event d y m) qs) = []"
  "writes (map (write_event d y m) qs) = map (write_event d y m) qs"
  by (induction qs) (simp_all add: show_defs write_event_def)

lemma deletion_shows:
  "api_calls [deletion ns b] = [fst (deletion ns b)]"
  "creations [deletion ns b] = []"
  "fetched [deletion ns b] = []"
  "deletions [deletion ns b] = [deletion ns b]"
  "writes [deletion ns b] = []"
  by (simp_all add: show_defs deletion_def)

lemma shows_Cons:
  "api_calls ((c, r) # evs) = (if is_api c then c # api_calls evs else api_calls evs)"
  "creations ((c, r) # evs) =
     (case c of CreateCall _ \<Rightarrow> (case r of GotSpreadsheet ss \<Rightarrow> [ss] | _ \<Rightarrow> []) | _ \<Rightarrow> []) @
     creations evs"
  "fetched ((c, r) # evs) =
     (case c of GetCall _ \<Rightarrow> (case r of GotSpreadsheet ss \<Rightarrow> [ss] | _ \<Rightarrow> []) | _ \<Rightarrow> []) @
     fetched evs"
  "deletions ((c, r) # evs) = (if is_delete c then (c, r) # deletions evs else deletions evs)"
  "writes ((c, r) # evs) = (if is_write c then (c, r) # writes evs else writes evs)"
  by (cases c; simp add: api_calls_def creations_def fetched_def deletions_def writes_def)+

lemmas is_defs = is_api_def is_delete_def is_write_def

lemma script_shows:
  assumes "dels = [] \<or> dels = [deletion ns b]"
  shows "length (api_calls (script ns src prs dels dst now qs)) =
           3 + 2 * length prs + length dels + length qs"
    and "creations (script ns src prs dels dst now qs) = [ns]"
    and "fetched (script ns src prs dels dst now qs) = [src, dst]"
    and "deletions (script ns src prs dels dst now qs) = dels"
    and "writes (script ns src prs dels dst now qs) =
           map (write_event (SpreadsheetId ns) (Year now) (Month now)) qs"
  using assms
  by (auto simp: script_def shows_Cons shows_append is_defs copies_show writes_show
      deletion_shows shows_Nil)

section \<open>The requests of a run that returns\<close>

lemmas run_defs =
  main_def main_workflow_def createSpreadsheet_def getSpreadsheet_def copySpreadsheet_def
  copySheet_def deleteBlankSheet_def updateCellsYearMonth_def writeYearMonth_def
  getClient_def tokenFromFile_def getTokenFromWeb_def saveToken_def
  step_defs demo_defs usual_defs bare_sys_def hollow_sys_def first_run_sys_def
  TrimSuffix_def HasSuffix_def copy_suffix_def scope_def

lemma main_shows:
  assumes "main sys s = (Inr u, s')"
  shows "\<exists>new ns src dst now qs dels.
     trace s' = trace s @ new \<and>
     creations new = [ns] \<and> fetched new = [src, dst] \<and> Sheets dst = map sheet_of qs \<and>
     deletions new = dels \<and>
     ((Sheets src = [] \<and> dels = []) \<or>
      (Sheets src \<noteq> [] \<and> (\<exists>b rest. Sheets ns = sheet_of b # rest \<and> dels = [deletion ns b]))) \<and>
     writes new = map (write_event (SpreadsheetId ns) (Year now) (Month now)) qs \<and>
     (\<exists>before. new = before @
        (GetCall (SpreadsheetId ns), GotSpreadsheet dst) # (NowCall, GotTime now) # writes new \<and>
        writes before = []) \<and>
     length (api_calls new) = 3 + 2 * length (Sheets src) + length dels + length (Sheets dst)"
proof -
  from main_complete [OF assms] obtain before ns src prs dels dst now qs where
    api: "api_calls before = []"
    and src: "Sheets src = map sheet_of (map fst prs)"
    and dst: "Sheets dst = map sheet_of qs"
    and dels: "(prs = [] \<and> dels = []) \<or>
      (prs \<noteq> [] \<and> (\<exists>b rest. Sheets ns = sheet_of b # rest \<and> dels = [deletion ns b]))"
    and tr: "trace s' = trace s @ before @ script ns src prs dels dst now qs"
    by blast
  from dels obtain b where dels': "dels = [] \<or> dels = [deletion ns b]"
    by blast
  note sh = script_shows [OF dels', of src prs dst now qs]
  note quiet = not_api_shows_nothing [OF api]
  define new where "new = before @ script ns src prs dels dst now qs"
  have 1: "trace s' = trace s @ new"
    using tr by (simp add: new_def)
  have 2: "creations new = [ns]" "fetched new = [src, dst]" "deletions new = dels"
    and 3: "writes new = map (write_event (SpreadsheetId ns) (Year now) (Month now)) qs"
    using sh quiet by (simp_all add: new_def shows_append)
  have 4: "length (api_calls new) = 3 + 2 * length (Sheets src) + length dels + length (Sheets dst)"
    using sh(1) api src dst by (simp add: new_def shows_append)
  have 5: "(Sheets src = [] \<and> dels = []) \<or>
      (Sheets src \<noteq> [] \<and> (\<exists>b rest. Sheets ns = sheet_of b # rest \<and> dels = [deletion ns b]))"
    using dels src by auto
  define pre where
    "pre = before @ [(CreateCall requested, GotSpreadsheet ns), (GetCall '''', GotSpreadsheet src)] @
       concat (map (copy_events '''' (SpreadsheetId ns)) prs) @ dels"
  have 6: "new = pre @
      (GetCall (SpreadsheetId ns), GotSpreadsheet dst) # (NowCall, GotTime now) # writes new"
    by (simp add: 3) (simp add: new_def pre_def script_def)
  have 7: "writes pre = []"
    using quiet dels'
    by (auto simp: pre_def shows_append shows_Cons is_defs copies_show deletion_shows shows_Nil)
  show ?thesis
    using 1 2 3 4 5 6 7 dst by blast
qed

section \<open>Writing the year and the month\<close>

text \<open>
  C1, as the code has it. In a run that returns, after the destination has been fetched
  again and the clock read, the year and the month are written once to every sheet of
  the fetched destination, in the order of its sheets, and to nothing else: for each
  sheet one \<open>RAW\<close> update of the range \<open>A1:A3\<close> of that sheet with the rows \<open>[year]\<close>,
  \<open>[]\<close>, \<open>[month]\<close>. The writes are the last requests of the run.
\<close>

theorem year_and_month_on_every_sheet:
  assumes "main sys s = (Inr u, s')"
  shows "\<exists>new ns src dst now qs before.
     trace s' = trace s @ new \<and> creations new = [ns] \<and> fetched new = [src, dst] \<and>
     Sheets dst = map sheet_of qs \<and>
     writes new = map (write_event (SpreadsheetId ns) (Year now) (Month now)) qs \<and>
     new = before @
       (GetCall (SpreadsheetId ns), GotSpreadsheet dst) # (NowCall, GotTime now) # writes new \<and>
     writes before = []"
proof -
  from main_shows [OF assms] obtain new ns src dst now qs before where
    "trace s' = trace s @ new" "creations new = [ns]" "fetched new = [src, dst]"
    "Sheets dst = map sheet_of qs"
    "writes new = map (write_event (SpreadsheetId ns) (Year now) (Month now)) qs"
    "new = before @
       (GetCall (SpreadsheetId ns), GotSpreadsheet dst) # (NowCall, GotTime now) # writes new"
    "writes before = []"
    by blast
  then show ?thesis
    by blast
qed

theorem year_and_month_on_every_sheet_witness:
  "fst (main usual_sys start) = Inr () \<and>
   fetched (trace (snd (main usual_sys start))) = [source_demo, destination_demo] \<and>
   writes (trace (snd (main usual_sys start))) =
     [write_event ''dst'' 2024 5 \<lparr>SheetId = 1, Title = ''Shift''\<rparr>,
      write_event ''dst'' 2024 5 \<lparr>SheetId = 2, Title = ''Notes''\<rparr>]"
  using year_and_month_on_every_sheet [of usual_sys start "()" "snd (main usual_sys start)"]
  by (simp add: run_defs show_defs write_event_def)

theorem only_first_sheet_written_counterexample:
  "fst (main usual_sys start) = Inr () \<and>
   fetched (trace (snd (main usual_sys start))) = [source_demo, destination_demo] \<and>
   Sheets destination_demo =
     [sheet_of \<lparr>SheetId = 1, Title = ''Shift''\<rparr>, sheet_of \<lparr>SheetId = 2, Title = ''Notes''\<rparr>] \<and>
   map fst (writes (trace (snd (main usual_sys start)))) =
     [ValuesUpdateCall ''dst'' ''Shift!A1:A3''
        \<lparr>Range = ''Shift!A1:A3'', Values = [[2024], [], [5]], MajorDimension = ''ROWS''\<rparr> ''RAW'',
      ValuesUpdateCall ''dst'' ''Notes!A1:A3''
        \<lparr>Range = ''Notes!A1:A3'', Values = [[2024], [], [5]], MajorDimension = ''ROWS''\<rparr> ''RAW'']"
  by (simp add: run_defs show_defs)

section \<open>Deleting the blank sheet\<close>




section \<open>The number of requests\<close>




section \<open>Failures end the run\<close>

lemma obeysI:
  assumes "\<And>s r s'. m s = (r, s') \<Longrightarrow> \<exists>new. trace s' = trace s @ new \<and> P r new"
  shows "obeys m P"
  using assms unfolding obeys_def by blast

lemma obeysD:
  assumes "obeys m P" "m s = (r, s')"
  shows "\<exists>new. trace s' = trace s @ new \<and> P r new"
  using assms unfolding obeys_def by blast

lemma obeys_weaken:
  assumes "obeys m Q" "\<And>r new. Q r new \<Longrightarrow> P r new"
  shows "obeys m P"
  using assms unfolding obeys_def by blast

lemma disciplined_simps:
  "disciplined (Inr x) new \<longleftrightarrow> \<not> list_ex aborting new"
  "disciplined (Inl (Panic p)) new \<longleftrightarrow> \<not> list_ex aborting new"
  "disciplined (Inl (Fatal m)) new \<longleftrightarrow>
     new \<noteq> [] \<and> aborting (last new) \<and> \<not> list_ex aborting (butlast new)"
  by (simp_all add: disciplined_def)

lemma disciplined_retype:
  "disciplined (Inl a :: abort + 'a) new = disciplined (Inl a :: abort + 'b) new"
  by (simp add: disciplined_def)

lemma disciplined_append:
  assumes "\<not> list_ex aborting xs" "disciplined r ys"
  shows "disciplined r (xs @ ys)"
proof (cases r)
  case (Inl a)
  show ?thesis
  proof (cases a)
    case (Fatal m)
    with Inl assms show ?thesis
      by (simp add: disciplined_simps butlast_append)
  next
    case (Panic p)
    with Inl assms show ?thesis
      by (simp add: disciplined_simps)
  qed
next
  case (Inr x)
  with assms show ?thesis
    by (simp add: disciplined_simps)
qed





lemma disc_seq:
  assumes m: "obeys m disciplined" and f: "\<And>x. obeys (f x) disciplined"
  shows "obeys (seq m f) disciplined"
proof (rule obeysI)
  fix s r s'
  assume "seq m f s = (r, s')"
  then consider
    (stop) a where "m s = (Inl a, s')" "r = Inl a"
  | (go) x s1 where "m s = (Inr x, s1)" "f x s1 = (r, s')"
    unfolding seq_result by blast
  then show "\<exists>new. trace s' = trace s @ new \<and> disciplined r new"
  proof cases
    case stop
    from obeysD [OF m stop(1)] stop(2) show ?thesis
      by (auto simp: disciplined_def)
  next
    case go
    from obeysD [OF m go(1)] obtain new1 where
      new1: "trace s1 = trace s @ new1" "\<not> list_ex aborting new1"
      by (auto simp: disciplined_simps)
    from obeysD [OF f go(2)] obtain new2 where
      new2: "trace s' = trace s1 @ new2" "disciplined r new2"
      by blast
    from new1 new2 disciplined_append [OF new1(2) new2(2)] show ?thesis
      by (intro exI [of _ "new1 @ new2"]) simp
  qed
qed

lemma disc_perform:
  assumes "\<And>x. \<not> aborting (c, conv x)"
  shows "obeys (perform c conv f) disciplined"
  using assms
  by (intro obeysI) (auto simp: perform_def disciplined_simps split: prod.splits)

lemma disc_tolerated:
  assumes "tolerated c" "\<And>r. obeys (k r) disciplined"
  shows "obeys (seq (call c conv f) k) disciplined"
proof (rule disc_seq)
  show "obeys (call c conv f) disciplined"
    unfolding call_def using assms(1)
    by (intro disc_perform) (simp add: aborting_def)
qed (rule assms(2))


lemma fatalf_is_fatal: "\<exists>m. fatalf p e = fatal m"
  by (auto simp: fatalf_def)

lemma fatal_is_fatal: "\<exists>m. fatal (k e) = fatal m"
  by blast



lemma obeys_conj:
  assumes "obeys m P" "\<And>s r s'. m s = (r, s') \<Longrightarrow> Q r"
  shows "obeys m (\<lambda>r new. P r new \<and> Q r)"
  using assms unfolding obeys_def by blast




lemma nil_results:
  "copySpreadsheet src srv a d s = (r1, s1) \<Longrightarrow> \<forall>e. r1 \<noteq> Inr (Some e)"
  "deleteBlankSheet srv ns d s = (r2, s2) \<Longrightarrow> \<forall>e. r2 \<noteq> Inr (Some e)"
  "updateCellsYearMonth sys srv dst d s = (r3, s3) \<Longrightarrow> \<forall>e. r3 \<noteq> Inr (Some e)"
  by (auto simp: copySpreadsheet_def deleteBlankSheet_def updateCellsYearMonth_def step_defs
      split: prod.splits sum.splits option.splits if_splits)










section \<open>The order of the requests\<close>

lemma follows_append:
  "follows q (xs @ ys) = (case follows q xs of None \<Rightarrow> None | Some q1 \<Rightarrow> follows q1 ys)"
  by (induction xs arbitrary: q) (auto split: option.splits)

lemma ordered_Nil: "ordered q q r []"
  by (cases r) (simp_all add: ordered_def api_calls_def)

lemma ordered_Inl_retype:
  "ordered q q1 (Inl a :: abort + 'a) new \<Longrightarrow> ordered q q2 (Inl a :: abort + 'b) new"
  by (simp add: ordered_def split: option.splits)

lemma ordered_append:
  assumes "ordered q q1 (Inr x) xs" "ordered q1 q2 r ys"
  shows "ordered q q2 r (xs @ ys)"
  using assms
  by (auto simp: ordered_def shows_append follows_append split: option.splits)

lemma ord_return: "obeys (return x) (ordered q q)"
  by (rule obeysI) (simp add: return_def ordered_Nil)

lemma ord_deref: "obeys (deref p) (ordered q q)"
  by (rule obeysI) (auto simp: deref_def ordered_Nil split: option.splits)

lemma ord_index: "obeys (index xs i) (ordered q q)"
  by (rule obeysI) (auto simp: index_def ordered_Nil split: if_splits)

lemma ord_perform:
  assumes "\<not> is_api c"
  shows "obeys (perform c conv f) (ordered q q)"
  using assms
  by (intro obeysI)
     (auto simp: perform_def ordered_def api_calls_def split: prod.splits)

lemma ord_seq:
  assumes m: "obeys m (ordered q q1)" and f: "\<And>x. obeys (f x) (ordered q1 q2)"
  shows "obeys (seq m f) (ordered q q2)"
proof (rule obeysI)
  fix s r s'
  assume "seq m f s = (r, s')"
  then consider
    (stop) a where "m s = (Inl a, s')" "r = Inl a"
  | (go) x s1 where "m s = (Inr x, s1)" "f x s1 = (r, s')"
    unfolding seq_result by blast
  then show "\<exists>new. trace s' = trace s @ new \<and> ordered q q2 r new"
  proof cases
    case stop
    from obeysD [OF m stop(1)] stop(2) show ?thesis
      by (auto intro: ordered_Inl_retype)
  next
    case go
    from obeysD [OF m go(1)] obtain new1 where
      new1: "trace s1 = trace s @ new1" "ordered q q1 (Inr x) new1"
      by blast
    from obeysD [OF f go(2)] obtain new2 where
      new2: "trace s' = trace s1 @ new2" "ordered q1 q2 r new2"
      by blast
    from new1(1) new2(1) ordered_append [OF new1(2) new2(2)] show ?thesis
      by (intro exI [of _ "new1 @ new2"]) simp
  qed
qed

lemma ord_checked:
  assumes c: "advance q c = Some q1 \<and> is_api c \<or> q1 = q \<and> \<not> is_api c"
    and h: "\<And>e. \<exists>m. h e = fatal m"
    and g: "\<And>y. obeys (g y) (ordered q1 q2)"
  shows "obeys (seq (call c conv f) (case_sum h g)) (ordered q q2)"
proof (rule obeysI)
  fix s r s'
  assume run: "seq (call c conv f) (case_sum h g) s = (r, s')"
  then obtain x s1 where
    x: "call c conv f s = (Inr x, s1)" and rest: "case_sum h g x s1 = (r, s')"
    by (auto simp: seq_result call_def perform_def split: prod.splits)
  have one: "\<And>rep u. ordered q q1 (Inr u) [(c, rep)]"
    using c by (auto simp: ordered_def api_calls_def)
  show "\<exists>new. trace s' = trace s @ new \<and> ordered q q2 r new"
  proof (cases x)
    case (Inl e)
    from h obtain m where "h e = fatal m" by blast
    with rest Inl have r: "r = Inl (Fatal m)" "s' = s1"
      by (auto simp: fatal_def)
    from x Inl have "trace s1 = trace s @ [(c, Failed e)]"
      by (auto simp: call_def perform_def split: prod.splits)
    moreover have "ordered q q2 r [(c, Failed e)]"
      using one [of "()" "Failed e"] r(1) by (simp add: ordered_def split: option.splits)
    ultimately show ?thesis
      using r(2) by blast
  next
    case (Inr y)
    from x Inr have t1: "trace s1 = trace s @ [(c, conv y)]"
      by (auto simp: call_def perform_def split: prod.splits)
    from rest Inr have "g y s1 = (r, s')" by simp
    from obeysD [OF g this] obtain new where
      new: "trace s' = trace s1 @ new" "ordered q1 q2 r new"
      by blast
    from ordered_append [OF one new(2)] t1 new(1) show ?thesis
      by (intro exI [of _ "[(c, conv y)] @ new"]) simp
  qed
qed

lemma ord_checked_option:
  assumes m: "obeys m (\<lambda>r new. ordered q q1 r new \<and> (\<forall>e. r \<noteq> Inr (Some e)))"
    and g: "obeys g (ordered q1 q2)"
  shows "obeys (seq m (case_option g h)) (ordered q q2)"
proof (rule obeysI)
  fix s r s'
  assume "seq m (case_option g h) s = (r, s')"
  then consider
    (stop) a where "m s = (Inl a, s')" "r = Inl a"
  | (go) x s1 where "m s = (Inr x, s1)" "case_option g h x s1 = (r, s')"
    unfolding seq_result by blast
  then show "\<exists>new. trace s' = trace s @ new \<and> ordered q q2 r new"
  proof cases
    case stop
    from obeysD [OF m stop(1)] stop(2) show ?thesis
      by (auto intro: ordered_Inl_retype)
  next
    case go
    from obeysD [OF m go(1)] obtain new1 where
      new1: "trace s1 = trace s @ new1" "ordered q q1 (Inr x) new1" and x: "x = None"
      by (cases x) auto
    from go(2) x have "g s1 = (r, s')" by simp
    from obeysD [OF g this] obtain new2 where
      new2: "trace s' = trace s1 @ new2" "ordered q1 q2 r new2"
      by blast
    from new1(1) new2(1) ordered_append [OF new1(2) new2(2)] show ?thesis
      by (intro exI [of _ "new1 @ new2"]) simp
  qed
qed

lemmas ord_defs = advance_def is_api_def rename_request_def

lemma copySheet_ord:
  assumes "q = SourceFetched \<or> q = Copied"
  shows "obeys (copySheet srv a d sheet) (ordered q Copied)"
  unfolding copySheet_def Let_def
  apply (rule ord_seq [OF ord_deref])
  apply (rule ord_seq [OF ord_deref])
  apply (rule ord_checked [where ?q1.0 = Copying])
  using assms apply (auto simp: ord_defs)[1]
   apply (rule fatal_is_fatal)
  apply (rule ord_checked [where ?q1.0 = Copied])
    apply (simp add: ord_defs)
   apply (rule fatalf_is_fatal)
  apply (rule ord_return)
  done

lemma copy_loop_ord:
  assumes "q = SourceFetched \<or> q = Copied"
  shows "obeys (forEach sheets (copySheet srv a d)) (ordered q (if sheets = [] then q else Copied))"
proof (cases sheets)
  case Nil
  then show ?thesis by (simp add: ord_return)
next
  case (Cons sheet rest)
  have loop: "obeys (forEach xs (copySheet srv a d)) (ordered Copied Copied)" for xs
    by (induction xs) (auto intro!: ord_return ord_seq copySheet_ord)
  show ?thesis
    unfolding Cons using assms
    by (auto intro!: ord_seq [where ?q1.0 = Copied] copySheet_ord loop)
qed

lemma copySpreadsheet_ord:
  "obeys (copySpreadsheet src srv a d)
     (\<lambda>r new. ordered SourceFetched (if Sheets src = [] then SourceFetched else Copied) r new \<and>
        (\<forall>e. r \<noteq> Inr (Some e)))"
proof (rule obeys_conj)
  show "obeys (copySpreadsheet src srv a d)
     (ordered SourceFetched (if Sheets src = [] then SourceFetched else Copied))"
    unfolding copySpreadsheet_def
    by (rule ord_seq [OF copy_loop_ord]) (simp_all add: ord_return)
qed (rule nil_results(1))

lemma deleteBlankSheet_ord:
  "obeys (deleteBlankSheet srv ns d)
     (\<lambda>r new. ordered Copied Deleted r new \<and> (\<forall>e. r \<noteq> Inr (Some e)))"
proof (rule obeys_conj)
  show "obeys (deleteBlankSheet srv ns d) (ordered Copied Deleted)"
    unfolding deleteBlankSheet_def Let_def
    apply (rule ord_seq [OF ord_index])
    apply (rule ord_seq [OF ord_deref])
    apply (rule ord_seq [OF ord_deref])
    apply (rule ord_checked [where ?q1.0 = Deleted])
      apply (simp add: ord_defs)
     apply (rule fatalf_is_fatal)
    apply (rule ord_return)
    done
qed (rule nil_results(2))

lemma writeYearMonth_ord:
  "obeys (writeYearMonth srv d y m sheet) (ordered DestinationFetched DestinationFetched)"
  unfolding writeYearMonth_def Let_def
  apply (rule ord_seq [OF ord_deref])
  apply (rule ord_seq [OF ord_deref])
  apply (rule ord_checked [where ?q1.0 = DestinationFetched])
    apply (simp add: ord_defs)
   apply (rule fatalf_is_fatal)
  apply (rule ord_return)
  done

lemma ord_forEach:
  assumes "\<And>x. obeys (body x) (ordered q q)"
  shows "obeys (forEach xs body) (ordered q q)"
  by (induction xs) (auto intro!: ord_return ord_seq assms)

lemma updateCellsYearMonth_ord:
  "obeys (updateCellsYearMonth sys srv dst d)
     (\<lambda>r new. ordered DestinationFetched DestinationFetched r new \<and> (\<forall>e. r \<noteq> Inr (Some e)))"
proof (rule obeys_conj)
  show "obeys (updateCellsYearMonth sys srv dst d) (ordered DestinationFetched DestinationFetched)"
    unfolding updateCellsYearMonth_def Let_def
    apply (rule ord_seq [OF ord_perform])
     apply (simp add: is_api_def)
    apply (rule ord_seq [OF ord_forEach])
     apply (rule writeYearMonth_ord)
    apply (rule ord_return)
    done
qed (rule nil_results(3))

lemma fetch_and_write_ord:
  assumes "q = SourceFetched \<or> q = Deleted"
  shows "obeys (seq (call (GetCall d) GotSpreadsheet (Get srv d))
            (case_sum (fatalf p)
               (\<lambda>dst. seq (updateCellsYearMonth sys srv dst d)
                  (case_option (return ()) (fatalf p')))))
          (ordered q DestinationFetched)"
  apply (rule ord_checked [where ?q1.0 = DestinationFetched])
  using assms apply (auto simp: ord_defs)[1]
   apply (rule fatalf_is_fatal)
  apply (rule ord_checked_option [OF updateCellsYearMonth_ord])
  apply (rule ord_return)
  done

lemma main_workflow_ord: "obeys (main_workflow sys srv) (ordered Start DestinationFetched)"
  unfolding main_workflow_def createSpreadsheet_eq getSpreadsheet_eq Let_def
  apply (rule ord_checked [where ?q1.0 = Created])
    apply (simp add: ord_defs)
   apply (rule fatalf_is_fatal)
  apply (rule ord_checked [where ?q1.0 = SourceFetched])
    apply (simp add: ord_defs)
   apply (rule fatalf_is_fatal)
  apply (rule ord_checked_option [OF copySpreadsheet_ord])
  subgoal for ns src
  proof (cases "Sheets src = []")
    case True
    then show ?thesis
      by (simp add: seq_return fetch_and_write_ord)
  next
    case False
    then show ?thesis
      apply simp
      apply (rule ord_seq [where ?q1.0 = Deleted])
       apply (rule ord_checked_option [OF deleteBlankSheet_ord])
       apply (rule ord_return)
      apply (rule fetch_and_write_ord)
      apply simp
      done
  qed
  done

lemma silent_ordered:
  assumes "api_calls new = []"
  shows "ordered q q r new"
  using assms by (cases r) (simp_all add: ordered_def)

lemma getClient_ord: "obeys (getClient sys config) (ordered q q)"
proof (rule obeysI)
  fix s r s'
  assume "getClient sys config s = (r, s')"
  from getClient_runs [OF this] obtain new where
    "trace s' = trace s @ new" "api_calls new = []"
    by (elim exE conjE disjE) (auto simp: api_calls_def is_api_def)
  then show "\<exists>new. trace s' = trace s @ new \<and> ordered q q r new"
    using silent_ordered by blast
qed

lemma main_ord: "obeys (main sys) (ordered Start DestinationFetched)"
  unfolding main_def
  apply (rule ord_checked [where ?q1.0 = Start])
    apply (simp add: ord_defs)
   apply (rule fatalf_is_fatal)
  apply (rule ord_checked [where ?q1.0 = Start])
    apply (simp add: ord_defs)
   apply (rule fatalf_is_fatal)
  apply (rule ord_seq [OF getClient_ord])
  apply (rule ord_checked [where ?q1.0 = Start])
    apply (simp add: ord_defs)
   apply (rule fatalf_is_fatal)
  apply (rule main_workflow_ord)
  done

text \<open>
  C3, as the code has it. The requests to the service come in this order in every run:
  create the destination, fetch the source, then for each sheet of the source a copy
  followed at once by a rename, then (only when at least one sheet was copied) one
  deletion, then fetch the destination, then the writes; a run that a failure or a
  panic stops has sent a beginning of this sequence. A run that returns has sent all of
  it: its transcript is \<open>script\<close>, with a copy and a rename for each sheet of the source,
  the deletion exactly when the source has a sheet, and a write for each sheet of the
  destination.
\<close>

theorem requests_in_order:
  assumes "main sys s = (r, s')"
  shows "\<exists>new q.
     trace s' = trace s @ new \<and> follows Start (api_calls new) = Some q \<and>
     (\<forall>u. r = Inr u \<longrightarrow>
        q = DestinationFetched \<and>
        (\<exists>before ns src prs dels dst now qs.
           new = before @ script ns src prs dels dst now qs \<and> api_calls before = [] \<and>
           Sheets src = map sheet_of (map fst prs) \<and> Sheets dst = map sheet_of qs \<and>
           ((prs = [] \<and> dels = []) \<or>
            (prs \<noteq> [] \<and> (\<exists>b rest. Sheets ns = sheet_of b # rest \<and> dels = [deletion ns b])))))"
proof -
  from obeysD [OF main_ord assms] obtain new where
    new: "trace s' = trace s @ new" "ordered Start DestinationFetched r new"
    by blast
  from new(2) obtain q where
    q: "follows Start (api_calls new) = Some q" "\<And>u. r = Inr u \<Longrightarrow> q = DestinationFetched"
    by (auto simp: ordered_def split: option.splits sum.splits)
  have "\<exists>before ns src prs dels dst now qs.
           new = before @ script ns src prs dels dst now qs \<and> api_calls before = [] \<and>
           Sheets src = map sheet_of (map fst prs) \<and> Sheets dst = map sheet_of qs \<and>
           ((prs = [] \<and> dels = []) \<or>
            (prs \<noteq> [] \<and> (\<exists>b rest. Sheets ns = sheet_of b # rest \<and> dels = [deletion ns b])))"
    if "r = Inr u" for u
  proof -
    from assms that have "main sys s = (Inr u, s')" by simp
    from main_complete [OF this] obtain before ns src prs dels dst now qs where
      c: "api_calls before = []" "Sheets src = map sheet_of (map fst prs)"
        "Sheets dst = map sheet_of qs"
        "(prs = [] \<and> dels = []) \<or>
         (prs \<noteq> [] \<and> (\<exists>b rest. Sheets ns = sheet_of b # rest \<and> dels = [deletion ns b]))"
        "trace s' = trace s @ before @ script ns src prs dels dst now qs"
      by blast
    from c(5) new(1) have "new = before @ script ns src prs dels dst now qs"
      by simp
    with c(1-4) show ?thesis
      by blast
  qed
  with new(1) q show ?thesis
    by blast
qed

theorem requests_in_order_witness:
  "fst (main usual_sys start) = Inr () \<and>
   follows Start (api_calls (trace (snd (main usual_sys start)))) = Some DestinationFetched \<and>
   fst (main refusing_sys start) = Inl (Fatal ''refused'') \<and>
   follows Start (api_calls (trace (snd (main refusing_sys start)))) = Some Copying"
proof -
  have usual: "main usual_sys start = (Inr (), snd (main usual_sys start))"
    and refusing: "main refusing_sys start =
      (Inl (Fatal ''refused''), snd (main refusing_sys start))"
    by (simp_all add: run_defs refusing_sys_def)
  have shown: ?thesis
    by (simp add: run_defs refusing_sys_def show_defs advance_def)
  show ?thesis
    using requests_in_order [OF usual] requests_in_order [OF refusing]
    by - (rule shown)
qed

theorem deletion_in_every_run_counterexample:
  "fst (main bare_sys start) = Inr () \<and>
   api_calls (trace (snd (main bare_sys start))) =
     [CreateCall requested, GetCall '''', GetCall ''dst'',
      ValuesUpdateCall ''dst'' ''Sheet1!A1:A3''
        \<lparr>Range = ''Sheet1!A1:A3'', Values = [[2024], [], [5]], MajorDimension = ''ROWS''\<rparr> ''RAW'']"
  by (simp add: run_defs show_defs requested_def)


section \<open>The two files\<close>

lemma same_run_refl: "same_run a a"
  by (cases a) (auto simp: same_run_def same_end_def split: sum.splits abort.splits)

lemma same_fatal: "same_run (fatalf p e s) (fatalf p' e' s)"
  by (simp add: same_run_def same_end_def fatalf_def fatal_def)

lemma same_seq:
  assumes "\<And>x s1. m s = (Inr x, s1) \<Longrightarrow> same_run (f x s1) (g x s1)"
  shows "same_run (seq m f s) (seq m g s)"
proof (cases "m s")
  case (Pair r s1)
  show ?thesis
  proof (cases r)
    case (Inl a)
    with Pair show ?thesis
      by (cases a) (simp_all add: seq_def same_run_def same_end_def)
  next
    case (Inr x)
    with Pair assms [of x s1] show ?thesis
      by (simp add: seq_def)
  qed
qed

lemma same_checked:
  assumes "\<And>y s1. call c conv f s = (Inr (Inr y), s1) \<Longrightarrow> same_run (g y s1) (g' y s1)"
  shows "same_run (seq (call c conv f) (case_sum (fatalf p) g) s)
           (seq (call c conv f) (case_sum (fatalf p') g') s)"
proof (rule same_seq)
  fix x s1
  assume "call c conv f s = (Inr x, s1)"
  with assms show "same_run (case_sum (fatalf p) g x s1) (case_sum (fatalf p') g' x s1)"
    by (cases x) (simp_all add: same_fatal)
qed

lemma seq_assoc: "seq (seq m f) g = seq m (\<lambda>x. seq (f x) g)"
  by (rule ext) (simp add: seq_def split: prod.splits sum.splits)

lemma seq_fatalf: "seq (fatalf p e) f = fatalf p e"
  by (rule ext) (simp add: seq_def fatalf_def fatal_def)

lemma seq_unit: "seq m (\<lambda>_. return ()) = m"
  by (rule ext) (auto simp: seq_def return_def split: prod.splits sum.splits)

lemma seq_return_right: "seq m return = m"
  by (rule ext) (auto simp: seq_def return_def split: prod.splits sum.splits)

lemma write_phase_eq:
  "seq (getSpreadsheet srv d)
     (case_sum (fatalf p)
        (\<lambda>dst. seq (updateCellsYearMonth sys srv dst d) (case_option (return ()) (fatalf p')))) =
   seq (call (GetCall d) GotSpreadsheet (Get srv d))
     (case_sum (fatalf p)
        (\<lambda>dst. seq (perform NowCall GotTime (Now sys))
           (\<lambda>now. forEach (Sheets dst) (writeYearMonth srv d (Year now) (Month now)))))"
  by (simp add: getSpreadsheet_eq updateCellsYearMonth_def Let_def seq_assoc seq_return seq_unit
      seq_return_right)

lemma blankSheetId_of_readable:
  assumes "Sheets ns = sheet_of b # rest"
  shows "blankSheetId_of ns = return (SheetId b)"
  using assms
  by (intro ext) (simp add: blankSheetId_of_def index_def deref_def sheet_of_def seq_def return_def)

lemma delete_phase_same:
  "same_run
     (seq (seq (deleteBlankSheet srv ns d) (case_option (return ()) (fatalf p))) k s)
     (seq (blankSheetId_of ns)
        (\<lambda>b. seq (seq (call (BatchUpdateCall d [DeleteSheet b]) (\<lambda>_. Done)
                          (BatchUpdate srv d [DeleteSheet b]))
                     (case_sum (fatalf p') (\<lambda>_. return ())))
                k) s)"
  unfolding deleteBlankSheet_def blankSheetId_of_def Let_def seq_assoc seq_return
proof (intro same_seq)
  fix sheet s1 sh s2 props s3 x s4
  show "same_run
     (seq (case x of Inl err \<Rightarrow> fatalf ''Unable to delete sheet: '' err | Inr _ \<Rightarrow> return None)
        (\<lambda>x. seq (case x of None \<Rightarrow> return () | Some e \<Rightarrow> fatalf p e) k) s4)
     (seq (case x of Inl e \<Rightarrow> fatalf p' e | Inr _ \<Rightarrow> return ()) k s4)"
    by (cases x) (simp_all add: seq_fatalf seq_return same_fatal same_run_refl)
qed


lemma seq_nil_checked: "seq (seq m (\<lambda>_. return None)) (case_option g h) = seq m (\<lambda>_. g)"
  by (simp add: seq_assoc seq_return)

lemma workflows_agree:
  assumes "\<And>ns w1 src w2.
     Create srv requested (world s) = (Inr ns, w1) \<Longrightarrow> Get srv '''' w1 = (Inr src, w2) \<Longrightarrow>
     Sheets src = [] \<Longrightarrow> \<exists>b rest. Sheets ns = sheet_of b # rest"
  shows "same_run (main_workflow sys srv s) (main_workflow_part_000 sys srv s)"
  unfolding main_workflow_def main_workflow_part_000_def
  unfolding write_phase_eq
  unfolding createSpreadsheet_eq getSpreadsheet_eq copySpreadsheet_def Let_def seq_nil_checked
    requested_def [symmetric]
  apply (rule same_checked)
  apply (rule same_checked)
  apply (rule same_seq)
  subgoal premises run for ns s1 src s2 u s3
  proof (cases "Sheets src = []")
    case True
    from run(1) have "Create srv requested (world s) = (Inr ns, world s1)"
      by (auto simp: call_result)
    moreover from run(2) have "Get srv '''' (world s1) = (Inr src, world s2)"
      by (auto simp: call_result)
    ultimately obtain b rest where "Sheets ns = sheet_of b # rest"
      using assms True by blast
    with True show ?thesis
      by (simp add: seq_return blankSheetId_of_readable same_run_refl)
  next
    case False
    then have "0 < length (Sheets src)"
      by simp
    then show ?thesis
      by (simp only: if_True delete_phase_same)
  qed
  done

text \<open>
  C8, as the code has it. The two files do the same in every environment but one kind.
  Started in the same state they leave the same transcript (the same requests with the
  same arguments and the same replies, in the same order) and the same world, and they
  end the same way: both return, or both stop with \<open>log.Fatal\<close> (the text of the message
  differs for a failed creation and for a failed deletion), or both panic alike. This
  holds provided that, whenever the source has no sheet, the spreadsheet just created has
  a first sheet with its properties: the single-function file reads the identifier of
  that sheet before it tests whether the source has sheets, the other file only after.
\<close>

theorem the_two_files_agree:
  assumes "\<And>client srv w ns w1 src w2.
     NewService sys client = Inr srv \<Longrightarrow> Create srv requested w = (Inr ns, w1) \<Longrightarrow>
     Get srv '''' w1 = (Inr src, w2) \<Longrightarrow> Sheets src = [] \<Longrightarrow>
     \<exists>b rest. Sheets ns = sheet_of b # rest"
  shows "same_run (main sys s) (main_part_000 sys s)"
  unfolding main_def main_part_000_def
  apply (rule same_checked)
  apply (rule same_checked)
  apply (rule same_seq)
  apply (rule same_checked)
  subgoal premises run for b s1 config s2 client s3 srv s4
  proof (rule workflows_agree)
    fix ns w1 src w2
    assume "Create srv requested (world s4) = (Inr ns, w1)" "Get srv '''' w1 = (Inr src, w2)"
      "Sheets src = []"
    moreover from run(4) have "NewService sys client = Inr srv"
      by (auto simp: call_result pure_def)
    ultimately show "\<exists>b rest. Sheets ns = sheet_of b # rest"
      using assms by blast
  qed
  done

lemmas part_000_defs = main_part_000_def main_workflow_part_000_def blankSheetId_of_def

theorem the_two_files_agree_witness:
  "same_run (main usual_sys start) (main_part_000 usual_sys start) \<and>
   same_run (main bare_sys start) (main_part_000 bare_sys start) \<and>
   fst (main bare_sys start) = Inr () \<and>
   length (trace (snd (main_part_000 bare_sys start))) = 10 \<and>
   fst (main refusing_sys start) = Inl (Fatal ''refused'') \<and>
   same_run (main refusing_sys start) (main_part_000 refusing_sys start)"
proof -
  have readable: "\<exists>b rest. Sheets ns = sheet_of b # rest"
    if "NewService (demo_sys bad [blank] source destination) client = Inr srv"
      "Create srv requested w = (Inr ns, w1)"
    for bad source destination client srv w ns w1
    using that by (auto simp: demo_defs split: if_splits)
  have usual: "same_run (main usual_sys start) (main_part_000 usual_sys start)"
    by (rule the_two_files_agree) (rule readable [of "[]" "[sheet1, sheet2]" "[sheet1, sheet2]",
      folded usual_sys_def])
  have bare: "same_run (main bare_sys start) (main_part_000 bare_sys start)"
    by (rule the_two_files_agree) (rule readable [of "[]" "[]" "[blank]", folded bare_sys_def])
  have refusing: "same_run (main refusing_sys start) (main_part_000 refusing_sys start)"
    by (rule the_two_files_agree) (rule readable [of "[7]" "[sheet1, sheet2]" "[sheet1, sheet2]",
      folded refusing_sys_def])
  have "fst (main bare_sys start) = Inr ()"
    "length (trace (snd (main_part_000 bare_sys start))) = 10"
    "fst (main refusing_sys start) = Inl (Fatal ''refused'')"
    by (simp_all add: run_defs part_000_defs refusing_sys_def)
  with usual bare refusing show ?thesis
    by simp
qed

theorem blank_sheet_read_too_early_counterexample:
  "fst (main hollow_sys start) = Inr () \<and>
   map fst (trace (snd (main hollow_sys start))) =
     [ReadFileCall ''credentials.json'', ConfigFromJSONCall ''{}'' scope,
      OpenCall ''token.json'', DecodeCall (File ''token.json''),
      NewServiceCall (HTTPClient (Config scope) (Some (Token ''cached''))),
      CreateCall requested, GetCall '''', GetCall ''dst'', NowCall,
      ValuesUpdateCall ''dst'' ''Sheet1!A1:A3''
        \<lparr>Range = ''Sheet1!A1:A3'', Values = [[2024], [], [5]], MajorDimension = ''ROWS''\<rparr> ''RAW''] \<and>
   fst (main_part_000 hollow_sys start) = Inl (Panic IndexOutOfRange) \<and>
   map fst (trace (snd (main_part_000 hollow_sys start))) =
     [ReadFileCall ''credentials.json'', ConfigFromJSONCall ''{}'' scope,
      OpenCall ''token.json'', DecodeCall (File ''token.json''),
      NewServiceCall (HTTPClient (Config scope) (Some (Token ''cached''))),
      CreateCall requested, GetCall ''''] \<and>
   \<not> same_run (main hollow_sys start) (main_part_000 hollow_sys start)"
  by (simp add: run_defs part_000_defs requested_def same_run_def)

end
